theory Spec2Isabelle
  imports Main "HOL-Library.Word"
begin

section \<open>Candid interface descriptions\<close>

text \<open>
  Both the canister's generated binding and the frontend's hand-written binding are
  functions \<open>idlFactory({ IDL })\<close> that build a description of the service out of the
  constructors of the \<open>IDL\<close> object. The descriptions are data, and are embedded as such:
  an \<open>IDL.Record\<close> or \<open>IDL.Variant\<close> is the list of its named fields in the order the
  source writes them, an \<open>IDL.Func\<close> has its argument types, result types and
  annotations, and an \<open>IDL.Service\<close> is the list of its named methods.
\<close>

datatype idl =
    IDL_Null
  | IDL_Bool
  | IDL_Nat32
  | IDL_Nat64
  | IDL_Float64
  | IDL_Text
  | IDL_Principal
  | IDL_Opt idl
  | IDL_Vec idl
  | IDL_Record "(string \<times> idl) list"
  | IDL_Variant "(string \<times> idl) list"

datatype func = IDL_Func "idl list" "idl list" "string list"

type_synonym service = "(string \<times> func) list"

subsection \<open>The canister's binding\<close>

text \<open>
  The generated \<open>idlFactory\<close> of the canister (the JavaScript twin of
  \<open>service.did.d.ts\<close>), constant by constant.
\<close>

definition canister_SettlementStatus :: idl where
  "canister_SettlementStatus =
    IDL_Variant [(''Failed'', IDL_Null),
      (''Executing'', IDL_Null),
      (''Completed'', IDL_Null),
      (''Pending'', IDL_Null)]"

definition canister_Settlement :: idl where
  "canister_Settlement =
    IDL_Record [(''id'', IDL_Text),
      (''destination_address'', IDL_Text),
      (''last_error'', IDL_Opt IDL_Text),
      (''status'', canister_SettlementStatus),
      (''user_principal'', IDL_Principal),
      (''transaction_hash'', IDL_Opt IDL_Text),
      (''destination_chain'', IDL_Text),
      (''retry_count'', IDL_Nat32),
      (''created_at'', IDL_Nat64),
      (''payment_proof'', IDL_Text),
      (''quote_id'', IDL_Text),
      (''gas_used'', IDL_Opt IDL_Nat64),
      (''amount'', IDL_Nat64)]"

definition canister_BurnOperationStatus :: idl where
  "canister_BurnOperationStatus =
    IDL_Variant [(''Failed'', IDL_Null),
      (''Executing'', IDL_Null),
      (''Burning'', IDL_Null),
      (''Completed'', IDL_Null),
      (''Pending'', IDL_Null)]"

definition canister_ChainKeyTokenType :: idl where
  "canister_ChainKeyTokenType =
    IDL_Variant [(''ckDAI'', IDL_Null),
      (''ckETH'', IDL_Null),
      (''ckUSDC'', IDL_Null),
      (''ckUSDT'', IDL_Null),
      (''ckWBTC'', IDL_Null),
      (''Custom'', IDL_Text)]"

definition canister_ChainKeyBurnOperation :: idl where
  "canister_ChainKeyBurnOperation =
    IDL_Record [(''id'', IDL_Text),
      (''destination_address'', IDL_Text),
      (''status'', canister_BurnOperationStatus),
      (''user_principal'', IDL_Principal),
      (''created_at'', IDL_Nat64),
      (''ethereum_tx_hash'', IDL_Opt IDL_Text),
      (''completed_at'', IDL_Opt IDL_Nat64),
      (''amount'', IDL_Nat64),
      (''token_type'', canister_ChainKeyTokenType)]"

definition canister_MintOperationStatus :: idl where
  "canister_MintOperationStatus =
    IDL_Variant [(''Failed'', IDL_Null),
      (''Completed'', IDL_Null),
      (''Verifying'', IDL_Null),
      (''Pending'', IDL_Null)]"

definition canister_ChainKeyMintOperation :: idl where
  "canister_ChainKeyMintOperation =
    IDL_Record [(''id'', IDL_Text),
      (''status'', canister_MintOperationStatus),
      (''user_principal'', IDL_Principal),
      (''created_at'', IDL_Nat64),
      (''ethereum_tx_hash'', IDL_Text),
      (''completed_at'', IDL_Opt IDL_Nat64),
      (''amount'', IDL_Nat64),
      (''token_type'', canister_ChainKeyTokenType)]"

definition canister_TransactionStatus :: idl where
  "canister_TransactionStatus =
    IDL_Variant [(''Failed'', IDL_Null),
      (''Refunded'', IDL_Null),
      (''Processing'', IDL_Null),
      (''Completed'', IDL_Null),
      (''Pending'', IDL_Null)]"

definition canister_UserTransaction :: idl where
  "canister_UserTransaction =
    IDL_Record [(''id'', IDL_Text),
      (''destination_address'', IDL_Text),
      (''status'', canister_TransactionStatus),
      (''user_principal'', IDL_Principal),
      (''transaction_hash'', IDL_Opt IDL_Text),
      (''destination_chain'', IDL_Text),
      (''icp_payment_id'', IDL_Text),
      (''created_at'', IDL_Nat64),
      (''amount_eth'', IDL_Nat64),
      (''amount_icp'', IDL_Nat64),
      (''gas_sponsored'', IDL_Nat64),
      (''completed_at'', IDL_Opt IDL_Nat64)]"

definition canister_AuditLogEntry :: idl where
  "canister_AuditLogEntry =
    IDL_Record [(''id'', IDL_Text),
      (''user_principal'', IDL_Opt IDL_Principal),
      (''transaction_hash'', IDL_Opt IDL_Text),
      (''timestamp'', IDL_Nat64),
      (''details'', IDL_Text),
      (''amount'', IDL_Opt IDL_Nat64),
      (''event_type'', IDL_Text),
      (''admin_principal'', IDL_Opt IDL_Principal)]"

definition canister_PriceData :: idl where
  "canister_PriceData =
    IDL_Record [(''asset'', IDL_Text),
      (''source'', IDL_Text),
      (''timestamp'', IDL_Nat64),
      (''confidence'', IDL_Float64),
      (''price_usd'', IDL_Float64)]"

definition canister_BridgeStatistics :: idl where
  "canister_BridgeStatistics =
    IDL_Record [(''total_settlements'', IDL_Nat64),
      (''reserve_balance'', IDL_Nat64),
      (''locked_balance'', IDL_Nat64),
      (''daily_used'', IDL_Nat64),
      (''health_status'', IDL_Text),
      (''total_transactions'', IDL_Nat64),
      (''daily_limit'', IDL_Nat64)]"

definition canister_BridgeConfig :: idl where
  "canister_BridgeConfig =
    IDL_Record [(''max_quote_amount'', IDL_Nat64),
      (''min_quote_amount'', IDL_Nat64),
      (''quote_validity_minutes'', IDL_Nat64),
      (''max_gas_price'', IDL_Nat64),
      (''safety_margin_percent'', IDL_Nat32),
      (''supported_chains'', IDL_Vec IDL_Text)]"

definition canister_DetailedReserveStatus :: idl where
  "canister_DetailedReserveStatus =
    IDL_Record [(''utilization_percent'', IDL_Float64),
      (''threshold_warning'', IDL_Nat64),
      (''balance'', IDL_Nat64),
      (''daily_volume'', IDL_Nat64),
      (''pending_withdrawals'', IDL_Nat64),
      (''locked'', IDL_Nat64),
      (''can_accept_quotes'', IDL_Bool),
      (''available'', IDL_Nat64),
      (''health_status'', IDL_Text),
      (''last_topup'', IDL_Nat64),
      (''threshold_critical'', IDL_Nat64),
      (''daily_limit'', IDL_Nat64)]"

definition canister_PriceSource :: idl where
  "canister_PriceSource =
    IDL_Record [(''status'', IDL_Text),
      (''name'', IDL_Text),
      (''confidence'', IDL_Float64),
      (''price_usd'', IDL_Float64)]"

definition canister_PriceFeedStatus :: idl where
  "canister_PriceFeedStatus =
    IDL_Record [(''cache_status'', IDL_Text),
      (''last_updated'', IDL_Nat64),
      (''icp_sources'', IDL_Vec canister_PriceSource),
      (''eth_sources'', IDL_Vec canister_PriceSource)]"

definition canister_ReserveState :: idl where
  "canister_ReserveState =
    IDL_Record [(''available_balance'', IDL_Nat64),
      (''total_deposited'', IDL_Nat64),
      (''locked_balance'', IDL_Nat64),
      (''last_updated'', IDL_Nat64),
      (''daily_used'', IDL_Nat64),
      (''last_reset'', IDL_Nat64),
      (''health_status'', IDL_Text),
      (''daily_limit'', IDL_Nat64),
      (''total_withdrawn'', IDL_Nat64)]"

definition canister_QuoteStatus :: idl where
  "canister_QuoteStatus =
    IDL_Variant [(''Active'', IDL_Null),
      (''Expired'', IDL_Null),
      (''Settled'', IDL_Null)]"

definition canister_Quote :: idl where
  "canister_Quote =
    IDL_Record [(''id'', IDL_Text),
      (''destination_address'', IDL_Text),
      (''source_chain'', IDL_Text),
      (''status'', canister_QuoteStatus),
      (''base_fee'', IDL_Nat64),
      (''user_principal'', IDL_Principal),
      (''destination_chain'', IDL_Text),
      (''safety_margin'', IDL_Nat64),
      (''amount_requested'', IDL_Nat64),
      (''priority_fee'', IDL_Nat64),
      (''gas_estimate'', IDL_Nat64),
      (''total_cost'', IDL_Nat64),
      (''created_at'', IDL_Nat64),
      (''max_fee_per_gas'', IDL_Nat64),
      (''amount_out'', IDL_Nat64),
      (''amount_in'', IDL_Nat64),
      (''expires_at'', IDL_Nat64)]"

definition canister_ReserveStatus :: idl where
  "canister_ReserveStatus =
    IDL_Variant [(''Healthy'', IDL_Null),
      (''Critical'', IDL_Null),
      (''Emergency'', IDL_Null),
      (''Warning'', IDL_Null)]"

definition canister_SponsorshipStatus :: idl where
  "canister_SponsorshipStatus =
    IDL_Record [(''can_sponsor'', IDL_Bool),
      (''reserve_health'', IDL_Text),
      (''gas_coverage'', IDL_Text),
      (''estimated_cost_eth'', IDL_Nat64),
      (''estimated_cost_icp'', IDL_Nat64)]"

definition canister_idlFactory :: service where
  "canister_idlFactory =
    [(''add_admin'',
        IDL_Func [IDL_Principal] [IDL_Variant [(''Ok'', IDL_Text), (''Err'', IDL_Text)]] []),
      (''add_reserve_funds'',
        IDL_Func [IDL_Nat64] [IDL_Variant [(''Ok'', IDL_Text), (''Err'', IDL_Text)]] []),
      (''add_test_reserve_funds'',
        IDL_Func [] [IDL_Text] []),
      (''admin_add_reserve_funds'',
        IDL_Func [IDL_Nat64] [IDL_Variant [(''Ok'', IDL_Text), (''Err'', IDL_Text)]] []),
      (''admin_emergency_pause'',
        IDL_Func [] [IDL_Variant [(''Ok'', IDL_Text), (''Err'', IDL_Text)]] []),
      (''admin_emergency_unpause'',
        IDL_Func [] [IDL_Variant [(''Ok'', IDL_Text), (''Err'', IDL_Text)]] []),
      (''admin_set_daily_limit'',
        IDL_Func [IDL_Nat64] [IDL_Variant [(''Ok'', IDL_Text), (''Err'', IDL_Text)]] []),
      (''admin_set_reserve_thresholds'',
        IDL_Func [IDL_Nat64, IDL_Nat64] [IDL_Variant [(''Ok'', IDL_Text), (''Err'', IDL_Text)]] []),
      (''bridge_assets'',
        IDL_Func [IDL_Nat64, IDL_Text, IDL_Text] [IDL_Variant [(''Ok'', canister_Settlement), (''Err'', IDL_Text)]] []),
      (''calculate_icp_cost_for_eth'',
        IDL_Func [IDL_Nat64] [IDL_Variant [(''Ok'', IDL_Nat64), (''Err'', IDL_Text)]] []),
      (''can_accept_new_quotes'',
        IDL_Func [] [IDL_Bool] []),
      (''check_quote_expiry'',
        IDL_Func [IDL_Text] [IDL_Variant [(''Ok'', IDL_Text), (''Err'', IDL_Text)]] []),
      (''check_reserve_health'',
        IDL_Func [] [IDL_Text] []),
      (''clear_rpc_cache'',
        IDL_Func [] [IDL_Text] []),
      (''complete_cketh_burn_operation'',
        IDL_Func [IDL_Text] [IDL_Variant [(''Ok'', IDL_Text), (''Err'', IDL_Text)]] []),
      (''complete_cketh_mint_operation'',
        IDL_Func [IDL_Text] [IDL_Variant [(''Ok'', IDL_Text), (''Err'', IDL_Text)]] []),
      (''create_cketh_burn_operation'',
        IDL_Func [IDL_Nat64, IDL_Text] [IDL_Variant [(''Ok'', canister_ChainKeyBurnOperation), (''Err'', IDL_Text)]] []),
      (''create_cketh_mint_operation'',
        IDL_Func [IDL_Nat64, IDL_Text] [IDL_Variant [(''Ok'', canister_ChainKeyMintOperation), (''Err'', IDL_Text)]] []),
      (''create_icp_payment'',
        IDL_Func [IDL_Nat64, IDL_Text, IDL_Text] [IDL_Variant [(''Ok'', canister_UserTransaction), (''Err'', IDL_Text)]] []),
      (''estimate_quote_cost'',
        IDL_Func [IDL_Nat64] [IDL_Variant [(''Ok'', IDL_Text), (''Err'', IDL_Text)]] []),
      (''estimate_reserve_runway'',
        IDL_Func [] [IDL_Text] []),
      (''get_admin_status'',
        IDL_Func [] [IDL_Vec IDL_Principal] []),
      (''get_audit_logs'',
        IDL_Func [IDL_Nat32] [IDL_Vec canister_AuditLogEntry] []),
      (''get_best_eth_price'',
        IDL_Func [] [IDL_Variant [(''Ok'', canister_PriceData), (''Err'', IDL_Text)]] []),
      (''get_best_icp_price'',
        IDL_Func [] [IDL_Variant [(''Ok'', canister_PriceData), (''Err'', IDL_Text)]] []),
      (''get_bridge_ethereum_address'',
        IDL_Func [] [IDL_Variant [(''Ok'', IDL_Text), (''Err'', IDL_Text)]] []),
      (''get_bridge_statistics'',
        IDL_Func [] [canister_BridgeStatistics] []),
      (''get_bridge_status'',
        IDL_Func [] [IDL_Variant [(''Ok'', IDL_Text), (''Err'', IDL_Text)]] []),
      (''get_chain_key_service_status'',
        IDL_Func [] [IDL_Text] []),
      (''get_cketh_burn_operation'',
        IDL_Func [IDL_Text] [IDL_Variant [(''Ok'', canister_ChainKeyBurnOperation), (''Err'', IDL_Text)]] []),
      (''get_cketh_mint_operation'',
        IDL_Func [IDL_Text] [IDL_Variant [(''Ok'', canister_ChainKeyMintOperation), (''Err'', IDL_Text)]] []),
      (''get_config'',
        IDL_Func [] [canister_BridgeConfig] []),
      (''get_conversion_rate'',
        IDL_Func [] [IDL_Variant [(''Ok'', IDL_Float64), (''Err'', IDL_Text)]] []),
      (''get_detailed_reserve_status'',
        IDL_Func [] [canister_DetailedReserveStatus] []),
      (''get_eth_price_usd'',
        IDL_Func [] [IDL_Variant [(''Ok'', IDL_Float64), (''Err'', IDL_Text)]] []),
      (''get_icp_price_usd'',
        IDL_Func [] [IDL_Variant [(''Ok'', IDL_Float64), (''Err'', IDL_Text)]] []),
      (''get_price_feed_status'',
        IDL_Func [] [IDL_Variant [(''Ok'', canister_PriceFeedStatus), (''Err'', IDL_Text)]] []),
      (''get_professional_reserve_status'',
        IDL_Func [] [canister_ReserveState] []),
      (''get_quote'',
        IDL_Func [IDL_Text] [IDL_Opt canister_Quote] []),
      (''get_reserve_status'',
        IDL_Func [] [canister_ReserveStatus] []),
      (''get_reserve_status_formatted'',
        IDL_Func [] [IDL_Text] []),
      (''get_reserve_utilization'',
        IDL_Func [] [IDL_Float64] []),
      (''get_rpc_cache_stats'',
        IDL_Func [] [IDL_Text] []),
      (''get_settlement'',
        IDL_Func [IDL_Text] [IDL_Opt canister_Settlement] []),
      (''get_settlement_by_quote'',
        IDL_Func [IDL_Text] [IDL_Opt canister_Settlement] []),
      (''get_settlement_statistics'',
        IDL_Func [] [IDL_Text] []),
      (''get_sponsorship_status'',
        IDL_Func [IDL_Nat64, IDL_Text] [IDL_Variant [(''Ok'', canister_SponsorshipStatus), (''Err'', IDL_Text)]] []),
      (''get_supported_chain_key_tokens'',
        IDL_Func [] [IDL_Text] []),
      (''get_user_cketh_operations'',
        IDL_Func [] [IDL_Record [(''mint_operations'', IDL_Vec canister_ChainKeyMintOperation), (''burn_operations'', IDL_Vec canister_ChainKeyBurnOperation)]] []),
      (''get_user_icp_balance'',
        IDL_Func [] [IDL_Variant [(''Ok'', IDL_Nat64), (''Err'', IDL_Text)]] []),
      (''get_user_quotes'',
        IDL_Func [] [IDL_Vec canister_Quote] []),
      (''get_user_settlements'',
        IDL_Func [] [IDL_Vec canister_Settlement] []),
      (''get_user_transaction'',
        IDL_Func [IDL_Text] [IDL_Opt canister_UserTransaction] []),
      (''get_user_transactions'',
        IDL_Func [] [IDL_Vec canister_UserTransaction] []),
      (''health_check'',
        IDL_Func [] [IDL_Text] []),
      (''invalidate_gas_cache'',
        IDL_Func [] [IDL_Text] []),
      (''request_quote'',
        IDL_Func [IDL_Nat64, IDL_Text, IDL_Text] [IDL_Variant [(''Ok'', canister_Quote), (''Err'', IDL_Text)]] []),
      (''run_chain_key_token_tests'',
        IDL_Func [] [IDL_Text] []),
      (''run_comprehensive_test_suite'',
        IDL_Func [] [IDL_Text] []),
      (''run_edge_case_tests'',
        IDL_Func [] [IDL_Text] []),
      (''run_integration_tests'',
        IDL_Func [] [IDL_Text] []),
      (''run_performance_tests'',
        IDL_Func [] [IDL_Text] []),
      (''run_security_tests'',
        IDL_Func [] [IDL_Text] []),
      (''run_unit_tests'',
        IDL_Func [] [IDL_Text] []),
      (''settle_quote'',
        IDL_Func [IDL_Text, IDL_Text] [IDL_Variant [(''Ok'', canister_Settlement), (''Err'', IDL_Text)]] []),
      (''test_base_rpc'',
        IDL_Func [] [IDL_Text] []),
      (''test_complete_bridge_flow'',
        IDL_Func [] [IDL_Variant [(''Ok'', IDL_Text), (''Err'', IDL_Text)]] []),
      (''test_complete_gasless_settlement'',
        IDL_Func [] [IDL_Variant [(''Ok'', IDL_Text), (''Err'', IDL_Text)]] []),
      (''test_enhanced_rpc_client'',
        IDL_Func [] [IDL_Variant [(''Ok'', IDL_Text), (''Err'', IDL_Text)]] []),
      (''test_gasless_bridge_demo'',
        IDL_Func [] [IDL_Variant [(''Ok'', IDL_Text), (''Err'', IDL_Text)]] []),
      (''test_rpc_health_monitoring'',
        IDL_Func [] [IDL_Variant [(''Ok'', IDL_Text), (''Err'', IDL_Text)]] []),
      (''test_settlement_flow'',
        IDL_Func [] [IDL_Variant [(''Ok'', IDL_Text), (''Err'', IDL_Text)]] []),
      (''test_threshold_ecdsa_integration'',
        IDL_Func [] [IDL_Variant [(''Ok'', IDL_Text), (''Err'', IDL_Text)]] []),
      (''test_transaction_building'',
        IDL_Func [] [IDL_Variant [(''Ok'', IDL_Text), (''Err'', IDL_Text)]] []),
      (''update_config'',
        IDL_Func [canister_BridgeConfig] [IDL_Variant [(''Ok'', IDL_Text), (''Err'', IDL_Text)]] [])]"


subsection \<open>The frontend's binding\<close>

text \<open>
  The \<open>idlFactory\<close> written out in \<open>useCanisterStore.ts\<close>, which the store hands to
  \<open>Actor.createActor\<close>.
\<close>

definition frontend_QuoteStatus :: idl where
  "frontend_QuoteStatus =
    IDL_Variant [(''Active'', IDL_Null),
      (''Settled'', IDL_Null),
      (''Expired'', IDL_Null),
      (''Failed'', IDL_Null)]"

definition frontend_Quote :: idl where
  "frontend_Quote =
    IDL_Record [(''id'', IDL_Text),
      (''user_principal'', IDL_Principal),
      (''amount_in'', IDL_Nat64),
      (''amount_out'', IDL_Nat64),
      (''amount_requested'', IDL_Nat64),
      (''total_cost'', IDL_Nat64),
      (''gas_estimate'', IDL_Nat64),
      (''destination_address'', IDL_Text),
      (''source_chain'', IDL_Text),
      (''destination_chain'', IDL_Text),
      (''created_at'', IDL_Nat64),
      (''expires_at'', IDL_Nat64),
      (''base_fee'', IDL_Nat64),
      (''priority_fee'', IDL_Nat64),
      (''max_fee_per_gas'', IDL_Nat64),
      (''safety_margin'', IDL_Nat64),
      (''status'', frontend_QuoteStatus)]"

definition frontend_SettlementStatus :: idl where
  "frontend_SettlementStatus =
    IDL_Variant [(''Pending'', IDL_Null),
      (''Executing'', IDL_Null),
      (''Completed'', IDL_Null),
      (''Failed'', IDL_Null)]"

definition frontend_Settlement :: idl where
  "frontend_Settlement =
    IDL_Record [(''id'', IDL_Text),
      (''quote_id'', IDL_Text),
      (''user_principal'', IDL_Principal),
      (''amount'', IDL_Nat64),
      (''destination_address'', IDL_Text),
      (''destination_chain'', IDL_Text),
      (''payment_proof'', IDL_Text),
      (''created_at'', IDL_Nat64),
      (''status'', frontend_SettlementStatus),
      (''gas_used'', IDL_Opt IDL_Nat64),
      (''transaction_hash'', IDL_Opt IDL_Text),
      (''retry_count'', IDL_Nat32),
      (''last_error'', IDL_Opt IDL_Text)]"

definition frontend_ReserveStatus :: idl where
  "frontend_ReserveStatus =
    IDL_Record [(''balance'', IDL_Nat64),
      (''locked'', IDL_Nat64),
      (''available'', IDL_Nat64),
      (''threshold_warning'', IDL_Nat64),
      (''threshold_critical'', IDL_Nat64),
      (''daily_volume'', IDL_Nat64),
      (''daily_limit'', IDL_Nat64),
      (''pending_withdrawals'', IDL_Nat64),
      (''utilization_percent'', IDL_Float64),
      (''health_status'', IDL_Text),
      (''can_accept_quotes'', IDL_Bool),
      (''last_topup'', IDL_Nat64)]"

definition frontend_Result :: idl where
  "frontend_Result =
    IDL_Variant [(''Ok'', IDL_Text),
      (''Err'', IDL_Text)]"

definition frontend_Result_1 :: idl where
  "frontend_Result_1 =
    IDL_Variant [(''Ok'', frontend_Quote),
      (''Err'', IDL_Text)]"

definition frontend_Result_2 :: idl where
  "frontend_Result_2 =
    IDL_Variant [(''Ok'', frontend_Settlement),
      (''Err'', IDL_Text)]"

definition frontend_SponsorshipStatus :: idl where
  "frontend_SponsorshipStatus =
    IDL_Record [(''can_sponsor'', IDL_Bool),
      (''estimated_cost_icp'', IDL_Nat64),
      (''estimated_cost_eth'', IDL_Nat64),
      (''gas_coverage'', IDL_Text),
      (''reserve_health'', IDL_Text)]"

definition frontend_TransactionStatus :: idl where
  "frontend_TransactionStatus =
    IDL_Variant [(''Pending'', IDL_Null),
      (''Processing'', IDL_Null),
      (''Completed'', IDL_Null),
      (''Failed'', IDL_Null),
      (''Refunded'', IDL_Null)]"

definition frontend_UserTransaction :: idl where
  "frontend_UserTransaction =
    IDL_Record [(''id'', IDL_Text),
      (''user_principal'', IDL_Principal),
      (''amount_icp'', IDL_Nat64),
      (''amount_eth'', IDL_Nat64),
      (''destination_address'', IDL_Text),
      (''destination_chain'', IDL_Text),
      (''status'', frontend_TransactionStatus),
      (''created_at'', IDL_Nat64),
      (''completed_at'', IDL_Opt IDL_Nat64),
      (''transaction_hash'', IDL_Opt IDL_Text),
      (''gas_sponsored'', IDL_Nat64),
      (''icp_payment_id'', IDL_Text)]"

definition frontend_Result_4 :: idl where
  "frontend_Result_4 =
    IDL_Variant [(''Ok'', frontend_UserTransaction),
      (''Err'', IDL_Text)]"

definition frontend_Result_5 :: idl where
  "frontend_Result_5 =
    IDL_Variant [(''Ok'', frontend_SponsorshipStatus),
      (''Err'', IDL_Text)]"

definition frontend_idlFactory :: service where
  "frontend_idlFactory =
    [(''request_quote'',
        IDL_Func [IDL_Nat64, IDL_Text, IDL_Text] [frontend_Result_1] []),
      (''bridge_assets'',
        IDL_Func [IDL_Nat64, IDL_Text, IDL_Text] [frontend_Result_2] []),
      (''settle_quote'',
        IDL_Func [IDL_Text, IDL_Text] [frontend_Result_2] []),
      (''get_quote_by_id'',
        IDL_Func [IDL_Text] [frontend_Result_1] [''query'']),
      (''get_settlement_by_id'',
        IDL_Func [IDL_Text] [frontend_Result_2] [''query'']),
      (''get_detailed_reserve_status'',
        IDL_Func [] [frontend_ReserveStatus] [''query'']),
      (''get_rpc_cache_stats'',
        IDL_Func [] [frontend_Result] [''query'']),
      (''clear_rpc_cache'',
        IDL_Func [] [frontend_Result] []),
      (''invalidate_gas_cache'',
        IDL_Func [] [frontend_Result] []),
      (''run_comprehensive_test_suite'',
        IDL_Func [] [frontend_Result] []),
      (''create_icp_payment'',
        IDL_Func [IDL_Nat64, IDL_Text, IDL_Text] [frontend_Result_4] []),
      (''get_sponsorship_status'',
        IDL_Func [IDL_Nat64, IDL_Text] [frontend_Result_5] []),
      (''get_user_transactions'',
        IDL_Func [] [IDL_Vec frontend_UserTransaction] [''query'']),
      (''get_user_transaction'',
        IDL_Func [IDL_Text] [IDL_Opt frontend_UserTransaction] [''query''])]"

subsection \<open>Reading and comparing interface descriptions\<close>

text \<open>
  Candid identifies the fields of a record and the alternatives of a variant by name, not by
  position: the two bindings list the fields of \<open>Quote\<close> in different orders and still
  describe one record. \<open>same_type t u\<close> compares two descriptions accordingly: records
  (and variants) are the same when they have equally many fields and every field of the
  first is a field of the second, under the same name and with the same type.
\<close>

primrec same_type :: "idl \<Rightarrow> idl \<Rightarrow> bool" where
  "same_type IDL_Null u = (u = IDL_Null)"
| "same_type IDL_Bool u = (u = IDL_Bool)"
| "same_type IDL_Nat32 u = (u = IDL_Nat32)"
| "same_type IDL_Nat64 u = (u = IDL_Nat64)"
| "same_type IDL_Float64 u = (u = IDL_Float64)"
| "same_type IDL_Text u = (u = IDL_Text)"
| "same_type IDL_Principal u = (u = IDL_Principal)"
| "same_type (IDL_Opt t) u = (case u of IDL_Opt t' \<Rightarrow> same_type t t' | _ \<Rightarrow> False)"
| "same_type (IDL_Vec t) u = (case u of IDL_Vec t' \<Rightarrow> same_type t t' | _ \<Rightarrow> False)"
| "same_type (IDL_Record fs) u =
     (case u of
        IDL_Record gs \<Rightarrow>
          length fs = length gs \<and>
          list_all (\<lambda>field. case map_of gs (fst field) of None \<Rightarrow> False | Some t' \<Rightarrow> snd field t')
            (map (map_prod id same_type) fs)
      | _ \<Rightarrow> False)"
| "same_type (IDL_Variant fs) u =
     (case u of
        IDL_Variant gs \<Rightarrow>
          length fs = length gs \<and>
          list_all (\<lambda>field. case map_of gs (fst field) of None \<Rightarrow> False | Some t' \<Rightarrow> snd field t')
            (map (map_prod id same_type) fs)
      | _ \<Rightarrow> False)"

fun same_types :: "idl list \<Rightarrow> idl list \<Rightarrow> bool" where
  "same_types [] [] = True"
| "same_types (t # ts) (u # us) = (same_type t u \<and> same_types ts us)"
| "same_types _ _ = False"

fun variant_tags :: "idl \<Rightarrow> string list" where
  "variant_tags (IDL_Variant fs) = map fst fs"
| "variant_tags _ = []"

fun record_field :: "idl \<Rightarrow> string \<Rightarrow> idl option" where
  "record_field (IDL_Record fs) name = map_of fs name"
| "record_field _ name = None"

fun same_signature :: "func \<Rightarrow> func \<Rightarrow> bool" where
  "same_signature (IDL_Func args rets _) (IDL_Func args' rets' _) =
     (same_types args args' \<and> same_types rets rets')"

text \<open>
  A method of one binding agrees with another binding when the other declares a method of
  that name with the same argument and result types.
\<close>

definition method_agrees :: "service \<Rightarrow> service \<Rightarrow> string \<Rightarrow> bool" where
  "method_agrees binding deployed name =
     (case map_of binding name of
        None \<Rightarrow> False
      | Some f \<Rightarrow>
          (case map_of deployed name of
             None \<Rightarrow> False
           | Some g \<Rightarrow> same_signature f g))"

section \<open>The client-side store\<close>

text \<open>
  \<open>useCanisterStore\<close> is a zustand store: a record of state fields and of actions that
  read the state with \<open>get()\<close> and replace some of its fields with \<open>set(...)\<close>. An
  action is embedded as a function from the store to its result and the store it leaves.
  The store never looks inside a quote, a settlement, a transaction or a status report, so
  it is parametric in their types.

  Awaiting a method of the actor either yields the decoded reply or throws. What is thrown
  is kept by the three facts the code asks of it: whether it is an \<open>Error\<close>, its
  \<open>message\<close>, and the text a template literal makes of it.
\<close>

record thrown =
  instanceof_Error :: bool
  message :: string
  rendered :: string

datatype 'a call = Resolves 'a | Rejects thrown

datatype 'a Result = Ok 'a | Err string

record ('q, 's, 'r, 't) GaslessBridgeCanister =
  request_quote :: "nat \<Rightarrow> string \<Rightarrow> string \<Rightarrow> 'q Result call"
  bridge_assets :: "nat \<Rightarrow> string \<Rightarrow> string \<Rightarrow> 's Result call"
  settle_quote :: "string \<Rightarrow> string \<Rightarrow> 's Result call"
  get_detailed_reserve_status :: "'r call"
  get_rpc_cache_stats :: "string Result call"
  create_icp_payment :: "nat \<Rightarrow> string \<Rightarrow> string \<Rightarrow> 't Result call"

record ('g, 'q, 's, 'r, 't, 'p) CanisterStore =
  agent :: "'g option"
  actor :: "('q, 's, 'r, 't) GaslessBridgeCanister option"
  isConnected :: bool
  isLoading :: bool
  error :: "string option"
  retryCount :: nat
  quotes :: "'q list"
  settlements :: "'s list"
  reserveStatus :: "'r option"
  userTransactions :: "'t list"
  sponsorshipStatus :: "'p option"
  cacheStats :: "string option"

definition initial_store :: "('g, 'q, 's, 'r, 't, 'p) CanisterStore" where
  "initial_store =
     \<lparr> agent = None, actor = None, isConnected = False, isLoading = False, error = None,
       retryCount = 0, quotes = [], settlements = [], reserveStatus = None,
       userTransactions = [], sponsorshipStatus = None, cacheStats = None \<rparr>"

subsection \<open>Actions that call the canister\<close>

definition requestQuote ::
  "nat \<Rightarrow> string \<Rightarrow> string \<Rightarrow> ('g, 'q, 's, 'r, 't, 'p) CanisterStore
     \<Rightarrow> 'q option \<times> ('g, 'q, 's, 'r, 't, 'p) CanisterStore" where
  "requestQuote amount destinationAddress destinationChain st =
     (case actor st of
        None \<Rightarrow> (None, st\<lparr>error := Some ''Not connected to canister''\<rparr>)
      | Some a \<Rightarrow>
          (let st1 = st\<lparr>isLoading := True, error := None\<rparr> in
           case request_quote a amount destinationAddress destinationChain of
             Resolves (Ok quote) \<Rightarrow>
               (Some quote, st1\<lparr>quotes := quotes st1 @ [quote], isLoading := False\<rparr>)
           | Resolves (Err e) \<Rightarrow> (None, st1\<lparr>error := Some e, isLoading := False\<rparr>)
           | Rejects x \<Rightarrow>
               (None, st1\<lparr>error := Some (''Failed to request quote: '' @ rendered x),
                         isLoading := False\<rparr>)))"

definition bridgeAssets ::
  "nat \<Rightarrow> string \<Rightarrow> string \<Rightarrow> ('g, 'q, 's, 'r, 't, 'p) CanisterStore
     \<Rightarrow> 's option \<times> ('g, 'q, 's, 'r, 't, 'p) CanisterStore" where
  "bridgeAssets amount destinationAddress destinationChain st =
     (case actor st of
        None \<Rightarrow> (None, st\<lparr>error := Some ''Not connected to canister''\<rparr>)
      | Some a \<Rightarrow>
          (let st1 = st\<lparr>isLoading := True, error := None\<rparr> in
           case bridge_assets a amount destinationAddress destinationChain of
             Resolves (Ok settlement) \<Rightarrow>
               (Some settlement,
                st1\<lparr>settlements := settlements st1 @ [settlement], isLoading := False\<rparr>)
           | Resolves (Err e) \<Rightarrow> (None, st1\<lparr>error := Some e, isLoading := False\<rparr>)
           | Rejects x \<Rightarrow>
               (None, st1\<lparr>error := Some (''Failed to bridge assets: '' @ rendered x),
                         isLoading := False\<rparr>)))"

definition settleQuote ::
  "string \<Rightarrow> string \<Rightarrow> ('g, 'q, 's, 'r, 't, 'p) CanisterStore
     \<Rightarrow> 's option \<times> ('g, 'q, 's, 'r, 't, 'p) CanisterStore" where
  "settleQuote quoteId paymentProof st =
     (case actor st of
        None \<Rightarrow> (None, st\<lparr>error := Some ''Not connected to canister''\<rparr>)
      | Some a \<Rightarrow>
          (let st1 = st\<lparr>isLoading := True, error := None\<rparr> in
           case settle_quote a quoteId paymentProof of
             Resolves (Ok settlement) \<Rightarrow>
               (Some settlement,
                st1\<lparr>settlements := settlements st1 @ [settlement], isLoading := False\<rparr>)
           | Resolves (Err e) \<Rightarrow> (None, st1\<lparr>error := Some e, isLoading := False\<rparr>)
           | Rejects x \<Rightarrow>
               (None, st1\<lparr>error := Some (''Failed to settle quote: '' @ rendered x),
                         isLoading := False\<rparr>)))"

definition createIcpPayment ::
  "nat \<Rightarrow> string \<Rightarrow> string \<Rightarrow> ('g, 'q, 's, 'r, 't, 'p) CanisterStore
     \<Rightarrow> 't option \<times> ('g, 'q, 's, 'r, 't, 'p) CanisterStore" where
  "createIcpPayment amount destinationAddress destinationChain st =
     (case actor st of
        None \<Rightarrow> (None, st\<lparr>error := Some ''Not connected to canister''\<rparr>)
      | Some a \<Rightarrow>
          (let st1 = st\<lparr>isLoading := True, error := None\<rparr> in
           case create_icp_payment a amount destinationAddress destinationChain of
             Resolves (Ok transaction) \<Rightarrow>
               (Some transaction,
                st1\<lparr>userTransactions := userTransactions st1 @ [transaction],
                    isLoading := False\<rparr>)
           | Resolves (Err e) \<Rightarrow> (None, st1\<lparr>error := Some e, isLoading := False\<rparr>)
           | Rejects x \<Rightarrow>
               (None,
                st1\<lparr>error := Some (''Failed to create automatic ICP payment: '' @ rendered x),
                    isLoading := False\<rparr>)))"

definition getCacheStats ::
  "('g, 'q, 's, 'r, 't, 'p) CanisterStore \<Rightarrow> ('g, 'q, 's, 'r, 't, 'p) CanisterStore" where
  "getCacheStats st =
     (case actor st of
        None \<Rightarrow> st
      | Some a \<Rightarrow>
          (case get_rpc_cache_stats a of
             Resolves (Ok stats) \<Rightarrow> st\<lparr>cacheStats := Some stats\<rparr>
           | Resolves (Err e) \<Rightarrow> st
           | Rejects x \<Rightarrow> st))"

subsection \<open>Connecting and retrying\<close>

text \<open>\<open>str_includes s sub\<close> is \<open>s.includes(sub)\<close>: \<open>sub\<close> occurs somewhere in \<open>s\<close>.\<close>

fun str_includes :: "string \<Rightarrow> string \<Rightarrow> bool" where
  "str_includes [] sub = (sub = [])"
| "str_includes (c # cs) sub = (take (length sub) (c # cs) = sub \<or> str_includes cs sub)"

definition connection_error_message :: "thrown \<Rightarrow> string" where
  "connection_error_message e =
     (if instanceof_Error e then
        (if str_includes (message e) ''not found'' then
           ''HyperBridge canister not found. Please check if it's deployed correctly.''
         else if str_includes (message e) ''DestinationInvalid'' then
           ''Invalid canister destination. Please check the canister ID.''
         else if str_includes (message e) ''network'' then
           ''Network connection failed. Please check your internet connection.''
         else ''Connection failed: '' @ message e)
      else ''Failed to connect to HyperBridge'')"

text \<open>
  \<open>initializeCanister\<close> and \<open>retryConnection\<close> are \<open>async\<close>: each runs without
  interruption up to an \<open>await\<close>, and other calls may run before it goes on. The store is
  written at three places of \<open>initializeCanister\<close>, each of them between two awaits:
  at its start; after the reserve status has arrived; and in the \<open>catch\<close> block, which
  reads \<open>retryCount\<close> anew when it runs. Each place is one function on the store.
\<close>

definition initializeCanister_begins ::
  "('g, 'q, 's, 'r, 't, 'p) CanisterStore \<Rightarrow> ('g, 'q, 's, 'r, 't, 'p) CanisterStore" where
  "initializeCanister_begins st = st\<lparr>isLoading := True, error := None\<rparr>"

definition initializeCanister_connects ::
  "'g \<Rightarrow> ('q, 's, 'r, 't) GaslessBridgeCanister \<Rightarrow> 'r \<Rightarrow> ('g, 'q, 's, 'r, 't, 'p) CanisterStore
     \<Rightarrow> ('g, 'q, 's, 'r, 't, 'p) CanisterStore" where
  "initializeCanister_connects new_agent new_actor status st =
     st\<lparr>agent := Some new_agent, actor := Some new_actor, isConnected := True,
        isLoading := False, error := None, reserveStatus := Some status\<rparr>"

definition initializeCanister_throws ::
  "thrown \<Rightarrow> ('g, 'q, 's, 'r, 't, 'p) CanisterStore \<Rightarrow> ('g, 'q, 's, 'r, 't, 'p) CanisterStore" where
  "initializeCanister_throws e st =
     st\<lparr>isLoading := False, error := Some (connection_error_message e), isConnected := False,
        retryCount := retryCount st + 1\<rparr>"

text \<open>
  After connecting, \<open>initializeCanister\<close> calls \<open>getCacheStats\<close>, which takes the actor
  just stored and awaits its answer; when the answer arrives, an \<open>Ok\<close> is stored.
\<close>

definition getCacheStats_arrives ::
  "('q, 's, 'r, 't) GaslessBridgeCanister \<Rightarrow> ('g, 'q, 's, 'r, 't, 'p) CanisterStore
     \<Rightarrow> ('g, 'q, 's, 'r, 't, 'p) CanisterStore" where
  "getCacheStats_arrives a st =
     (case get_rpc_cache_stats a of
        Resolves (Ok stats) \<Rightarrow> st\<lparr>cacheStats := Some stats\<rparr>
      | Resolves (Err e) \<Rightarrow> st
      | Rejects x \<Rightarrow> st)"

text \<open>
  A session is the store together with what is under way: the connection attempts that have
  begun and not yet ended, each marked \<open>True\<close> if \<open>retryConnection\<close> began it and
  \<open>False\<close> if \<open>initializeCanister\<close> was called directly (as the application does when
  it mounts), and the actors whose cache statistics are awaited. Two more fields only keep
  count: how many attempts \<open>retryConnection\<close> has begun, and for every attempt that has
  ended who began it and whether it connected.
\<close>

record ('g, 'q, 's, 'r, 't, 'p) Session =
  store :: "('g, 'q, 's, 'r, 't, 'p) CanisterStore"
  in_flight :: "bool list"
  fetching :: "('q, 's, 'r, 't) GaslessBridgeCanister list"
  retry_attempts :: nat
  ended :: "(bool \<times> bool) list"

definition session_of ::
  "('g, 'q, 's, 'r, 't, 'p) CanisterStore \<Rightarrow> ('g, 'q, 's, 'r, 't, 'p) Session" where
  "session_of st =
     \<lparr> store = st, in_flight = [], fetching = [], retry_attempts = 0, ended = [] \<rparr>"

text \<open>
  What can happen in a session, one uninterrupted piece of code at a time: a call of
  \<open>initializeCanister\<close> or of \<open>retryConnection\<close> runs up to its first await; the
  \<open>i\<close>-th attempt under way obtains its agent, actor and reserve status, or throws; the
  \<open>i\<close>-th awaited cache statistics arrive. \<open>retryConnection\<close> reads \<open>retryCount\<close>
  when it is called, and begins an attempt if it is below three.
\<close>

datatype ('g, 'q, 's, 'r, 't) Event =
    InitializeCanister
  | RetryConnection
  | AttemptConnects nat 'g "('q, 's, 'r, 't) GaslessBridgeCanister" 'r
  | AttemptThrows nat thrown
  | CacheStatsArrive nat

definition without :: "nat \<Rightarrow> 'a list \<Rightarrow> 'a list" where
  "without i xs = take i xs @ drop (Suc i) xs"

fun session_step ::
  "('g, 'q, 's, 'r, 't) Event \<Rightarrow> ('g, 'q, 's, 'r, 't, 'p) Session
     \<Rightarrow> ('g, 'q, 's, 'r, 't, 'p) Session" where
  "session_step InitializeCanister w =
     w\<lparr>store := initializeCanister_begins (store w), in_flight := in_flight w @ [False]\<rparr>"
| "session_step RetryConnection w =
     (if retryCount (store w) < 3
      then w\<lparr>store := initializeCanister_begins (store w), in_flight := in_flight w @ [True],
             retry_attempts := retry_attempts w + 1\<rparr>
      else w\<lparr>store :=
               (store w)
                 \<lparr>error :=
                    Some ''Maximum retry attempts reached. Please check your connection and try again.'',
                  isLoading := False\<rparr>\<rparr>)"
| "session_step (AttemptConnects i new_agent new_actor status) w =
     (if i < length (in_flight w)
      then w\<lparr>store := initializeCanister_connects new_agent new_actor status (store w),
             in_flight := without i (in_flight w),
             fetching := fetching w @ [new_actor],
             ended := ended w @ [(in_flight w ! i, True)]\<rparr>
      else w)"
| "session_step (AttemptThrows i e) w =
     (if i < length (in_flight w)
      then w\<lparr>store := initializeCanister_throws e (store w),
             in_flight := without i (in_flight w),
             ended := ended w @ [(in_flight w ! i, False)]\<rparr>
      else w)"
| "session_step (CacheStatsArrive i) w =
     (if i < length (fetching w)
      then w\<lparr>store := getCacheStats_arrives (fetching w ! i) (store w),
             fetching := without i (fetching w)\<rparr>
      else w)"

fun session_run ::
  "('g, 'q, 's, 'r, 't) Event list \<Rightarrow> ('g, 'q, 's, 'r, 't, 'p) Session
     \<Rightarrow> ('g, 'q, 's, 'r, 't, 'p) Session" where
  "session_run [] w = w"
| "session_run (ev # evs) w = session_run evs (session_step ev w)"

text \<open>
  Calls of \<open>retryConnection\<close> that do not overlap: each is followed at once by the end
  of its attempt, with the outcome given for it (which is not consulted if the call begins
  no attempt), before the next call is made.
\<close>

type_synonym ('g, 'q, 's, 'r, 't) connection =
  "('g \<times> ('q, 's, 'r, 't) GaslessBridgeCanister \<times> 'r) call"

fun one_after_another ::
  "('g, 'q, 's, 'r, 't) connection list \<Rightarrow> ('g, 'q, 's, 'r, 't) Event list" where
  "one_after_another [] = []"
| "one_after_another (Resolves (new_agent, new_actor, status) # rest) =
     RetryConnection # AttemptConnects 0 new_agent new_actor status # CacheStatsArrive 0 #
     one_after_another rest"
| "one_after_another (Rejects e # rest) =
     RetryConnection # AttemptThrows 0 e # one_after_another rest"

section \<open>The settlement engine\<close>

text \<open>
  The canister's implementation is not part of the sources at hand: of the engine there are
  only the type declarations of \<open>service.did.d.ts\<close>. The status types below follow
  those declarations. The operations are modelled from the specification, each with the
  passage it renders.
\<close>

type_synonym Principal = string

type_synonym u64 = "64 word"

datatype QuoteStatus = Active | Expired | Settled

datatype SettlementStatus = Failed | Executing | Completed | Pending

datatype ReserveStatus = Healthy | Critical | Emergency | Warning

text \<open>
  Modelled from the spec: the error kinds of the engine, which the sources only ever show as
  the text of an \<open>Err\<close>. The specification fixes the enumeration.
\<close>

datatype Error =
    ValidationError
  | ReserveError_Insufficient
  | ReserveError_Paused
  | ReserveError_DailyLimitExceeded
  | QuoteError_NotFound
  | QuoteError_Expired
  | QuoteError_AlreadySettled
  | PaymentError_NotFound
  | PaymentError_AmountMismatch
  | PaymentError_AlreadyUsed
  | PaymentError_NotFinal
  | RpcError_Timeout
  | RpcError_AllEndpointsDown
  | RpcError_BadResponse
  | RpcError_UpstreamRevert
  | SignerError_Unavailable
  | SignerError_Rejected
  | PriceError_Unavailable
  | PriceError_Stale
  | AdminError_NotAdmin
  | ConfigError

subsection \<open>Reserve manager\<close>

text \<open>
  Modelled from the spec: the reserve record (the reserve manager is not in the sources).
  It has the attributes the specification lists. ``All monetary fields are unsigned 64-bit
  integers'', and so are the timestamps of the declared interface: every number is a
  64-bit word, whose sums and differences wrap around.
\<close>

record Reserve =
  balance :: u64
  locked :: u64
  threshold_warning :: u64
  threshold_critical :: u64
  daily_limit :: u64
  daily_used :: u64
  day_anchor_timestamp :: u64
  paused :: bool
  last_topup :: u64

text \<open>Modelled from the spec: ``available = balance \<minus> locked''.\<close>

definition available :: "Reserve \<Rightarrow> u64" where
  "available r = balance r - locked r"

text \<open>
  Modelled from the spec: ``Healthy if available > threshold\_warning; Warning if >
  threshold\_critical; Critical if > 0; Emergency if 0 or paused.''
\<close>

definition health :: "Reserve \<Rightarrow> ReserveStatus" where
  "health r =
     (if paused r \<or> available r = 0 then Emergency
      else if available r > threshold_warning r then Healthy
      else if available r > threshold_critical r then Warning
      else Critical)"

text \<open>
  Modelled from the spec: ``daily\_used resets when the wall clock crosses a new UTC day
  boundary (detected lazily on any mutation).'' Timestamps are in seconds, as in the
  specification's scenarios, and a day has 86400 of them.
\<close>

definition seconds_per_day :: u64 where
  "seconds_per_day = 86400"

text \<open>
  Modelled from the spec: the lazy day rollover that every mutation starts with: when the
  time is in a later day than the anchor, \<open>daily_used\<close> is reset and the anchor moved.
\<close>

definition roll_day :: "u64 \<Rightarrow> Reserve \<Rightarrow> Reserve" where
  "roll_day now r =
     (if day_anchor_timestamp r div seconds_per_day < now div seconds_per_day
      then r\<lparr>daily_used := 0, day_anchor_timestamp := now\<rparr>
      else r)"

text \<open>
  Modelled from the spec: ``lock(amount): locked += amount if available \<ge> amount and not
  paused and daily\_used + amount \<le> daily\_limit''; failures InsufficientReserve,
  DailyLimitExceeded, Paused.
\<close>

definition lock :: "u64 \<Rightarrow> u64 \<Rightarrow> Reserve \<Rightarrow> Error + Reserve" where
  "lock now amt r0 =
     (let r = roll_day now r0 in
      if available r < amt then Inl ReserveError_Insufficient
      else if paused r then Inl ReserveError_Paused
      else if daily_limit r < daily_used r + amt then Inl ReserveError_DailyLimitExceeded
      else Inr (r\<lparr>locked := locked r + amt\<rparr>))"

text \<open>
  Modelled from the spec: ``unlock(amount): quote expired or failed pre-settlement'';
  failure ``none''. The specification puts no condition on the amount.
\<close>

definition unlock :: "u64 \<Rightarrow> u64 \<Rightarrow> Reserve \<Rightarrow> Reserve" where
  "unlock now amt r0 = (let r = roll_day now r0 in r\<lparr>locked := locked r - amt\<rparr>)"

text \<open>
  Modelled from the spec: ``commit(amount): balance -= amount; locked -= amount; daily\_used
  += amount''; failure ``none''. The specification puts no condition on the amount.
\<close>

definition commit :: "u64 \<Rightarrow> u64 \<Rightarrow> Reserve \<Rightarrow> Reserve" where
  "commit now amt r0 =
     (let r = roll_day now r0 in
      r\<lparr>balance := balance r - amt, locked := locked r - amt, daily_used := daily_used r + amt\<rparr>)"

text \<open>
  Modelled from the spec: ``topup(amount): admin-only deposit'', failure NotAdmin. The
  deposit is added to the balance and its time is kept in \<open>last_topup\<close>.
\<close>

definition topup :: "bool \<Rightarrow> u64 \<Rightarrow> u64 \<Rightarrow> Reserve \<Rightarrow> Error + Reserve" where
  "topup is_admin now amt r0 =
     (if \<not> is_admin then Inl AdminError_NotAdmin
      else let r = roll_day now r0 in Inr (r\<lparr>balance := balance r + amt, last_topup := now\<rparr>))"

text \<open>
  Modelled from the spec: ``set\_thresholds, set\_daily\_limit, pause/unpause: admin-only'',
  failure NotAdmin.
\<close>

definition set_thresholds :: "bool \<Rightarrow> u64 \<Rightarrow> u64 \<Rightarrow> u64 \<Rightarrow> Reserve \<Rightarrow> Error + Reserve" where
  "set_thresholds is_admin now warning critical r0 =
     (if \<not> is_admin then Inl AdminError_NotAdmin
      else let r = roll_day now r0 in
           Inr (r\<lparr>threshold_warning := warning, threshold_critical := critical\<rparr>))"

text \<open>Modelled from the spec: \<open>set_daily_limit\<close>, admin-only, failure NotAdmin.\<close>

definition set_daily_limit :: "bool \<Rightarrow> u64 \<Rightarrow> u64 \<Rightarrow> Reserve \<Rightarrow> Error + Reserve" where
  "set_daily_limit is_admin now limit r0 =
     (if \<not> is_admin then Inl AdminError_NotAdmin
      else let r = roll_day now r0 in Inr (r\<lparr>daily_limit := limit\<rparr>))"

text \<open>Modelled from the spec: \<open>pause\<close>, admin-only, failure NotAdmin.\<close>

definition pause :: "bool \<Rightarrow> u64 \<Rightarrow> Reserve \<Rightarrow> Error + Reserve" where
  "pause is_admin now r0 =
     (if \<not> is_admin then Inl AdminError_NotAdmin
      else let r = roll_day now r0 in Inr (r\<lparr>paused := True\<rparr>))"

text \<open>Modelled from the spec: \<open>unpause\<close>, admin-only, failure NotAdmin.\<close>

definition unpause :: "bool \<Rightarrow> u64 \<Rightarrow> Reserve \<Rightarrow> Error + Reserve" where
  "unpause is_admin now r0 =
     (if \<not> is_admin then Inl AdminError_NotAdmin
      else let r = roll_day now r0 in Inr (r\<lparr>paused := False\<rparr>))"

text \<open>
  The reserve mutations as one type, so that a history of the reserve is a list of them,
  each with the time at which it is made. A mutation that fails leaves the reserve as it
  was. The flag of an admin mutation says whether its caller is an admin.
\<close>

datatype AdminOp =
    Topup u64
  | SetThresholds u64 u64
  | SetDailyLimit u64
  | Pause
  | Unpause

text \<open>The admin mutation that an \<open>AdminOp\<close> names, made at a time by an admin or not.\<close>

fun admin_op :: "bool \<Rightarrow> u64 \<Rightarrow> AdminOp \<Rightarrow> Reserve \<Rightarrow> Error + Reserve" where
  "admin_op is_admin now (Topup amt) r = topup is_admin now amt r"
| "admin_op is_admin now (SetThresholds warning critical) r =
     set_thresholds is_admin now warning critical r"
| "admin_op is_admin now (SetDailyLimit limit) r = set_daily_limit is_admin now limit r"
| "admin_op is_admin now Pause r = pause is_admin now r"
| "admin_op is_admin now Unpause r = unpause is_admin now r"

text \<open>
  All reserve mutations as one type: \<open>lock\<close>, \<open>unlock\<close>, \<open>commit\<close> and the admin
  mutations.
\<close>

datatype ReserveOp =
    Lock u64
  | Unlock u64
  | Commit u64
  | Admin bool AdminOp

text \<open>The outcome of a mutation made at a time: an error or the new reserve.\<close>

fun reserve_op :: "u64 \<Rightarrow> ReserveOp \<Rightarrow> Reserve \<Rightarrow> Error + Reserve" where
  "reserve_op now (Lock amt) r = lock now amt r"
| "reserve_op now (Unlock amt) r = Inr (unlock now amt r)"
| "reserve_op now (Commit amt) r = Inr (commit now amt r)"
| "reserve_op now (Admin is_admin op) r = admin_op is_admin now op r"

text \<open>The reserve after a mutation; a mutation that fails leaves it as it was.\<close>

definition reserve_apply :: "u64 \<Rightarrow> ReserveOp \<Rightarrow> Reserve \<Rightarrow> Reserve" where
  "reserve_apply now op r = (case reserve_op now op r of Inl e \<Rightarrow> r | Inr r' \<Rightarrow> r')"

text \<open>The reserve after a history of mutations, each made at its time.\<close>

fun reserve_history :: "(u64 \<times> ReserveOp) list \<Rightarrow> Reserve \<Rightarrow> Reserve" where
  "reserve_history [] r = r"
| "reserve_history ((now, op) # rest) r = reserve_history rest (reserve_apply now op r)"

text \<open>
  A mutation stays within 64 bits when it takes from \<open>locked\<close> no more than is locked,
  and adds to \<open>balance\<close> no more than the balance can hold; a history does when each of
  its mutations does in the reserve it meets.
\<close>

fun within_64_bits :: "ReserveOp \<Rightarrow> Reserve \<Rightarrow> bool" where
  "within_64_bits (Lock amt) r = True"
| "within_64_bits (Unlock amt) r = (amt \<le> locked r)"
| "within_64_bits (Commit amt) r = (amt \<le> locked r)"
| "within_64_bits (Admin is_admin (Topup amt)) r = (unat (balance r) + unat amt < 2 ^ 64)"
| "within_64_bits (Admin is_admin op) r = True"

text \<open>A history stays within 64 bits when each mutation does in the reserve it meets.\<close>

fun history_within_64_bits :: "(u64 \<times> ReserveOp) list \<Rightarrow> Reserve \<Rightarrow> bool" where
  "history_within_64_bits [] r = True"
| "history_within_64_bits ((now, op) # rest) r =
     (within_64_bits op r \<and> history_within_64_bits rest (reserve_apply now op r))"

text \<open>
  Modelled from the spec: the reserve of a freshly initialised service, which owns nothing
  and has nothing locked; its policy fields are whatever the service is configured with.
\<close>

definition empty_reserve :: "u64 \<Rightarrow> u64 \<Rightarrow> u64 \<Rightarrow> u64 \<Rightarrow> Reserve" where
  "empty_reserve warning critical limit now =
     \<lparr> balance = 0, locked = 0, threshold_warning = warning, threshold_critical = critical,
       daily_limit = limit, daily_used = 0, day_anchor_timestamp = now, paused = False,
       last_topup = 0 \<rparr>"

subsection \<open>Records of the declared interface\<close>

text \<open>
  The records of \<open>service.did.d.ts\<close> that the engine keeps and returns: \<open>nat64\<close> fields
  are 64-bit words, \<open>nat32\<close> fields 32-bit words, \<open>[] | [T]\<close> is an option. A field name
  that several records share carries the initial of its record.
\<close>

type_synonym u32 = "32 word"

record Quote =
  q_id :: string
  q_destination_address :: string
  source_chain :: string
  q_status :: QuoteStatus
  base_fee :: u64
  q_user_principal :: Principal
  q_destination_chain :: string
  safety_margin :: u64
  amount_requested :: u64
  priority_fee :: u64
  gas_estimate :: u64
  total_cost :: u64
  q_created_at :: u64
  max_fee_per_gas :: u64
  amount_out :: u64
  amount_in :: u64
  expires_at :: u64

record Settlement =
  s_id :: string
  s_destination_address :: string
  last_error :: "string option"
  s_status :: SettlementStatus
  s_user_principal :: Principal
  transaction_hash :: "string option"
  s_destination_chain :: string
  retry_count :: u32
  s_created_at :: u64
  payment_proof :: string
  quote_id :: string
  gas_used :: "u64 option"
  amount :: u64

record BridgeConfig =
  max_quote_amount :: u64
  min_quote_amount :: u64
  quote_validity_minutes :: u64
  max_gas_price :: u64
  safety_margin_percent :: u32
  supported_chains :: "string list"

text \<open>
  Modelled from the spec: the text of an error. The sources only ever show an error as the
  text of an \<open>Err\<close>; the specification says that what the user sees is a short classified
  string, and \<open>error_text\<close> writes each kind the way the specification does.
\<close>

fun error_text :: "Error \<Rightarrow> string" where
  "error_text ValidationError = ''ValidationError''"
| "error_text ReserveError_Insufficient = ''ReserveError.Insufficient''"
| "error_text ReserveError_Paused = ''ReserveError.Paused''"
| "error_text ReserveError_DailyLimitExceeded = ''ReserveError.DailyLimitExceeded''"
| "error_text QuoteError_NotFound = ''QuoteError.NotFound''"
| "error_text QuoteError_Expired = ''QuoteError.Expired''"
| "error_text QuoteError_AlreadySettled = ''QuoteError.AlreadySettled''"
| "error_text PaymentError_NotFound = ''PaymentError.NotFound''"
| "error_text PaymentError_AmountMismatch = ''PaymentError.AmountMismatch''"
| "error_text PaymentError_AlreadyUsed = ''PaymentError.AlreadyUsed''"
| "error_text PaymentError_NotFinal = ''PaymentError.NotFinal''"
| "error_text RpcError_Timeout = ''RpcError.Timeout''"
| "error_text RpcError_AllEndpointsDown = ''RpcError.AllEndpointsDown''"
| "error_text RpcError_BadResponse = ''RpcError.BadResponse''"
| "error_text RpcError_UpstreamRevert = ''RpcError.UpstreamRevert''"
| "error_text SignerError_Unavailable = ''SignerError.Unavailable''"
| "error_text SignerError_Rejected = ''SignerError.Rejected''"
| "error_text PriceError_Unavailable = ''PriceError.Unavailable''"
| "error_text PriceError_Stale = ''PriceError.Stale''"
| "error_text AdminError_NotAdmin = ''AdminError.NotAdmin''"
| "error_text ConfigError = ''ConfigError''"

subsection \<open>Quote engine\<close>

text \<open>
  The gas estimator, the price feed, the source ledger and the destination chain are
  outside the engine; their answers are inputs of a call. Prices are floating-point numbers
  (\<open>price_usd\<close> is a \<open>float64\<close> of the declared interface), so the conversion of an
  amount of wei into what the user pays is an input as well: the price feed answers with
  an error or with the conversion, which takes \<open>amount_out + gas_budget\<close> to the total
  cost in source units and the part of it that is the safety margin.
\<close>

text \<open>
  Modelled from the spec: the estimate of the gas estimator, ``base\_fee'',
  ``priority\_fee'', ``max\_fee\_per\_gas'' and ``gas\_estimate''.
\<close>

record GasEstimate =
  est_base_fee :: u64
  est_priority_fee :: u64
  est_max_fee_per_gas :: u64
  est_gas_estimate :: u64

text \<open>
  Modelled from the spec: the outcome of the price conversion for one amount,
  ``total\_cost\_source'' and the safety margin it contains.
\<close>

record Conversion =
  total_cost_source :: u64
  margin_source :: u64

text \<open>
  Modelled from the spec: what the source ledger knows of a transfer, ``a transfer of at
  least quote.total\_cost from quote.user to the bridge's collection account exists and is
  finalised''.
\<close>

record LedgerTransfer =
  transfer_from :: Principal
  transfer_amount :: u64
  transfer_final :: bool

text \<open>
  Modelled from the spec: the receipt of the destination transaction, with its status, its
  hash, the gas it used and the price paid for it.
\<close>

record Receipt =
  receipt_success :: bool
  receipt_transaction_hash :: string
  receipt_gas_used :: u64
  receipt_effective_gas_price :: u64

text \<open>
  Modelled from the spec: the surroundings of one call: the time, the answers of the gas
  estimator and of the price feed, the caller's linked payment, the source ledger, and how
  the execution on the destination chain ends (after how many retries, and with a receipt
  or with the error that stopped it).
\<close>

record Env =
  now :: u64
  gas_feed :: "Error + GasEstimate"
  price_feed :: "Error + (u64 \<Rightarrow> Conversion)"
  linked_payment :: string
  ledger :: "string \<Rightarrow> LedgerTransfer option"
  execution_retries :: u32
  execution :: "Error + Receipt"

text \<open>
  Modelled from the spec: the persistent state of the engine, with the stable maps the
  claims below speak about. Quotes and settlements are kept in the order they were made.
\<close>

record Engine =
  stable_quotes :: "Quote list"
  stable_settlements :: "Settlement list"
  reserve_state :: Reserve
  config :: BridgeConfig
  admins :: "Principal list"
  next_id :: nat

text \<open>
  Modelled from the spec: identifiers. The specification asks for monotonic identifiers;
  they are drawn from a counter and written in decimal after a letter for the kind of
  record. \<open>digit_char\<close> is the character of a digit.
\<close>

definition digit_char :: "nat \<Rightarrow> char" where
  "digit_char d = ''0123456789'' ! d"

text \<open>Modelled from the spec: the counter of the identifiers, written in decimal.\<close>

fun decimal :: "nat \<Rightarrow> string" where
  "decimal n = (if n < 10 then [digit_char n] else decimal (n div 10) @ [digit_char (n mod 10)])"

declare decimal.simps [simp del]

text \<open>
  Modelled from the spec: ``validate address format (20-byte hex, checksum-tolerant),
  destination\_chain in the configured set, min\_amount \<le> amount\_out \<le> max\_amount''.
  \<open>hex_digit\<close> is a hexadecimal digit in either case.
\<close>

definition hex_digit :: "char \<Rightarrow> bool" where
  "hex_digit c = (c \<in> set ''0123456789abcdefABCDEF'')"

text \<open>
  Modelled from the spec: the address format, \<open>0x\<close> and the forty hexadecimal digits of
  twenty bytes, in either case.
\<close>

definition valid_address :: "string \<Rightarrow> bool" where
  "valid_address a = (length a = 42 \<and> take 2 a = ''0x'' \<and> list_all hex_digit (drop 2 a))"

text \<open>
  Modelled from the spec: step 1 of \<open>request_quote\<close>, the three validations together.
\<close>

definition valid_request :: "BridgeConfig \<Rightarrow> u64 \<Rightarrow> string \<Rightarrow> string \<Rightarrow> bool" where
  "valid_request cfg amt destination_address destination_chain =
     (valid_address destination_address \<and>
      destination_chain \<in> set (supported_chains cfg) \<and>
      min_quote_amount cfg \<le> amt \<and> amt \<le> max_quote_amount cfg)"

text \<open>
  Modelled from the spec: ``gas\_budget = max\_fee\_per\_gas \<times> gas\_estimate'', which is
  also the gas part of what an active quote reserves (``amount\_out + gas\_budget'').
\<close>

definition reservation :: "Quote \<Rightarrow> u64" where
  "reservation q = amount_out q + max_fee_per_gas q * gas_estimate q"

text \<open>
  Modelled from the spec: ``check\_expiry(id): if past expires\_at and still Active, set
  Expired, call unlock'', and the sweep that does so for every stored quote at each entry
  point. The sweep is also where the day rollover of the reserve is noticed.
\<close>

fun expire_quotes ::
  "(Quote \<Rightarrow> bool) \<Rightarrow> u64 \<Rightarrow> Quote list \<Rightarrow> Reserve \<Rightarrow> Quote list \<times> Reserve" where
  "expire_quotes chosen t [] r = ([], r)"
| "expire_quotes chosen t (q # qs) r =
     (if chosen q \<and> q_status q = Active \<and> expires_at q < t
      then (case expire_quotes chosen t qs (unlock t (reservation q) r) of
              (qs', r') \<Rightarrow> (q\<lparr>q_status := Expired\<rparr> # qs', r'))
      else (case expire_quotes chosen t qs r of (qs', r') \<Rightarrow> (q # qs', r')))"

text \<open>
  Modelled from the spec: \<open>check_expiry(id)\<close>, the expiry of the quotes with that
  identifier.
\<close>

definition check_expiry :: "u64 \<Rightarrow> string \<Rightarrow> Engine \<Rightarrow> Engine" where
  "check_expiry t qid eng =
     (case expire_quotes (\<lambda>q. q_id q = qid) t (stable_quotes eng) (reserve_state eng) of
        (qs, r) \<Rightarrow> eng\<lparr>stable_quotes := qs, reserve_state := r\<rparr>)"

text \<open>
  Modelled from the spec: the ``background sweep on every API entry point'', which expires
  every stale quote and notices the day rollover.
\<close>

definition sweep :: "u64 \<Rightarrow> Engine \<Rightarrow> Engine" where
  "sweep t eng =
     (case expire_quotes (\<lambda>q. True) t (stable_quotes eng) (roll_day t (reserve_state eng)) of
        (qs, r) \<Rightarrow> eng\<lparr>stable_quotes := qs, reserve_state := r\<rparr>)"

text \<open>
  Modelled from the spec: the fail-fast test, ``when paused or available <
  threshold\_critical the engine rejects new quotes'', ``when daily\_used \<ge> daily\_limit,
  request\_quote fails fast''.
\<close>

definition fail_fast :: "Reserve \<Rightarrow> Error option" where
  "fail_fast r =
     (if paused r then Some ReserveError_Paused
      else if available r < threshold_critical r then Some ReserveError_Insufficient
      else if daily_limit r \<le> daily_used r then Some ReserveError_DailyLimitExceeded
      else None)"

text \<open>
  Modelled from the spec: the quote that step 4 of \<open>request_quote\<close> persists. It records
  the estimate it was priced with, is \<open>Active\<close>, and expires
  \<open>quote_validity_minutes\<close> after its creation (``expires\_at = created\_at +
  validity\_window (default 15 min)''); timestamps are in seconds, as in the specification's
  scenarios. The declared field \<open>amount_in\<close>, which the specification does not mention,
  is given the amount the user pays.
\<close>

definition new_quote ::
  "Engine \<Rightarrow> u64 \<Rightarrow> Principal \<Rightarrow> u64 \<Rightarrow> string \<Rightarrow> string \<Rightarrow> GasEstimate \<Rightarrow> (u64 \<Rightarrow> Conversion)
     \<Rightarrow> Quote" where
  "new_quote eng t user amt destination_address destination_chain g convert =
     (let gas_budget = est_max_fee_per_gas g * est_gas_estimate g;
          cost = convert (amt + gas_budget)
      in \<lparr> q_id = CHR ''Q'' # decimal (next_id eng),
           q_destination_address = destination_address,
           source_chain = ''ICP'',
           q_status = Active,
           base_fee = est_base_fee g,
           q_user_principal = user,
           q_destination_chain = destination_chain,
           safety_margin = margin_source cost,
           amount_requested = amt,
           priority_fee = est_priority_fee g,
           gas_estimate = est_gas_estimate g,
           total_cost = total_cost_source cost,
           q_created_at = t,
           max_fee_per_gas = est_max_fee_per_gas g,
           amount_out = amt,
           amount_in = total_cost_source cost,
           expires_at = t + quote_validity_minutes (config eng) * 60 \<rparr>)"

text \<open>
  Modelled from the spec: \<open>request_quote\<close>, steps 1 to 4 of the quote engine, after the
  sweep of the entry point and the fail-fast test: validate, get the gas estimate and the
  prices, lock \<open>amount_out + gas_budget\<close> in the reserve (``on failure, abort with the
  reserve error''), persist the quote.
\<close>

definition engine_request_quote ::
  "Env \<Rightarrow> Principal \<Rightarrow> u64 \<Rightarrow> string \<Rightarrow> string \<Rightarrow> Engine \<Rightarrow> (Error + Quote) \<times> Engine" where
  "engine_request_quote env user amt destination_address destination_chain eng0 =
     (let eng = sweep (now env) eng0 in
      if \<not> valid_request (config eng) amt destination_address destination_chain
      then (Inl ValidationError, eng)
      else
        (case fail_fast (reserve_state eng) of
           Some e \<Rightarrow> (Inl e, eng)
         | None \<Rightarrow>
             (case gas_feed env of
                Inl e \<Rightarrow> (Inl e, eng)
              | Inr g \<Rightarrow>
                  (case price_feed env of
                     Inl e \<Rightarrow> (Inl e, eng)
                   | Inr convert \<Rightarrow>
                       (let q = new_quote eng (now env) user amt destination_address
                                  destination_chain g convert
                        in case lock (now env) (reservation q) (reserve_state eng) of
                             Inl e \<Rightarrow> (Inl e, eng)
                           | Inr r \<Rightarrow>
                               (Inr q,
                                eng\<lparr>stable_quotes := stable_quotes eng @ [q],
                                    reserve_state := r,
                                    next_id := next_id eng + 1\<rparr>))))))"

subsection \<open>Settlement engine\<close>

text \<open>
  Modelled from the spec: the payment verifier. ``Verifies with the source-chain ledger that
  a transfer of at least quote.total\_cost from quote.user to the bridge's collection
  account exists and is finalised.'' The ledger's answer for a proof is the transfer it
  names, if any.
\<close>

definition verify_payment :: "Quote \<Rightarrow> LedgerTransfer option \<Rightarrow> Error option" where
  "verify_payment q answer =
     (case answer of
        None \<Rightarrow> Some PaymentError_NotFound
      | Some transfer \<Rightarrow>
          if transfer_from transfer \<noteq> q_user_principal q then Some PaymentError_NotFound
          else if transfer_amount transfer < total_cost q then Some PaymentError_AmountMismatch
          else if \<not> transfer_final transfer then Some PaymentError_NotFinal
          else None)"

text \<open>
  Modelled from the spec: what the first step of a settlement finds: the existing
  settlement that carries the payment proof, or the settlement it has just created.
\<close>

datatype Opened = Existing Settlement | Created Settlement

text \<open>
  Modelled from the spec: the settlements of a quote that have not failed (``each Quote has
  at most one non-Failed Settlement'').
\<close>

definition live_settlements :: "string \<Rightarrow> Engine \<Rightarrow> Settlement list" where
  "live_settlements qid eng =
     filter (\<lambda>s. quote_id s = qid \<and> s_status s \<noteq> Failed) (stable_settlements eng)"

text \<open>
  Modelled from the spec: the settlement that is recorded for a quote and a payment proof:
  \<open>Pending\<close>, for the user, the amount and the destination of the quote.
\<close>

definition new_settlement :: "Engine \<Rightarrow> u64 \<Rightarrow> Quote \<Rightarrow> string \<Rightarrow> Settlement" where
  "new_settlement eng t q proof_id =
     \<lparr> s_id = CHR ''S'' # decimal (next_id eng),
       s_destination_address = q_destination_address q,
       last_error = None,
       s_status = Pending,
       s_user_principal = q_user_principal q,
       transaction_hash = None,
       s_destination_chain = q_destination_chain q,
       retry_count = 0,
       s_created_at = t,
       payment_proof = proof_id,
       quote_id = q_id q,
       gas_used = None,
       amount = amount_out q \<rparr>"

text \<open>
  Modelled from the spec: the first step of a settlement, up to the point where the engine
  first waits for the ledger. A proof that a settlement already carries is not used again:
  the settlement it belongs to is returned when the call names the same quote
  (``with the same payment\_proof returns the existing Settlement''), and the call fails with
  AlreadyUsed otherwise (``duplicate proofs return AlreadyUsed''). A quote that has a
  settlement which has not failed is not settled again (``at most one non-Failed Settlement
  per Quote'', the second is rejected as AlreadySettled). Otherwise the quote must exist and
  be active, and a \<open>Pending\<close> settlement is recorded for it.
\<close>

definition open_settlement ::
  "u64 \<Rightarrow> string \<Rightarrow> string \<Rightarrow> Engine \<Rightarrow> (Error + Opened) \<times> Engine" where
  "open_settlement t qid proof_id eng =
     (case find (\<lambda>s. payment_proof s = proof_id) (stable_settlements eng) of
        Some s \<Rightarrow>
          if quote_id s = qid then (Inr (Existing s), eng) else (Inl PaymentError_AlreadyUsed, eng)
      | None \<Rightarrow>
          if live_settlements qid eng \<noteq> [] then (Inl QuoteError_AlreadySettled, eng)
          else
            (case find (\<lambda>q. q_id q = qid) (stable_quotes eng) of
               None \<Rightarrow> (Inl QuoteError_NotFound, eng)
             | Some q \<Rightarrow>
                 (case q_status q of
                    Settled \<Rightarrow> (Inl QuoteError_AlreadySettled, eng)
                  | Expired \<Rightarrow> (Inl QuoteError_Expired, eng)
                  | Active \<Rightarrow>
                      (let s = new_settlement eng t q proof_id
                       in (Inr (Created s),
                           eng\<lparr>stable_settlements := stable_settlements eng @ [s],
                               next_id := next_id eng + 1\<rparr>)))))"

text \<open>
  Modelled from the spec: a settlement that has failed, with the error that stopped it as
  its \<open>last_error\<close>.
\<close>

definition failed :: "Error \<Rightarrow> Settlement \<Rightarrow> Settlement" where
  "failed e s = s\<lparr>s_status := Failed, last_error := Some (error_text e)\<rparr>"

text \<open>
  Modelled from the spec: the failure path. The settlement becomes \<open>Failed\<close> with the
  error that stopped it, and ``anything still reserved'' for its quote is unlocked.
\<close>

definition fail_settlement :: "u64 \<Rightarrow> Settlement \<Rightarrow> Error \<Rightarrow> Engine \<Rightarrow> Engine" where
  "fail_settlement t s e eng =
     eng\<lparr>stable_settlements :=
            map (\<lambda>s'. if s_id s' = s_id s \<and> s_status s' = s_status s then failed e s' else s')
              (stable_settlements eng),
         reserve_state :=
           (case find (\<lambda>q. q_id q = quote_id s \<and> q_status q = Active) (stable_quotes eng) of
              None \<Rightarrow> reserve_state eng
            | Some q \<Rightarrow> unlock t (reservation q) (reserve_state eng))\<rparr>"

text \<open>
  Modelled from the spec: \<open>Pending\<close> to \<open>Executing\<close> when the payment verifies, to
  \<open>Failed\<close> when it does not. The step answers with the settlement as it now stands or
  with the error, and with nothing when no settlement of that identifier is \<open>Pending\<close>.
\<close>

definition verify_step :: "Env \<Rightarrow> string \<Rightarrow> Engine \<Rightarrow> (Error + Settlement) option \<times> Engine" where
  "verify_step env sid eng =
     (case find (\<lambda>s. s_id s = sid \<and> s_status s = Pending) (stable_settlements eng) of
        None \<Rightarrow> (None, eng)
      | Some s \<Rightarrow>
          (case find (\<lambda>q. q_id q = quote_id s) (stable_quotes eng) of
             None \<Rightarrow> (Some (Inl QuoteError_NotFound), fail_settlement (now env) s QuoteError_NotFound eng)
           | Some q \<Rightarrow>
               (case verify_payment q (ledger env (payment_proof s)) of
                  Some e \<Rightarrow> (Some (Inl e), fail_settlement (now env) s e eng)
                | None \<Rightarrow>
                    (Some (Inr (s\<lparr>s_status := Executing\<rparr>)),
                     eng\<lparr>stable_settlements :=
                            map (\<lambda>s'. if s_id s' = sid \<and> s_status s' = Pending
                                       then s'\<lparr>s_status := Executing\<rparr> else s')
                              (stable_settlements eng)\<rparr>))))"

text \<open>
  Modelled from the spec: a settlement that has completed, with the hash and the gas of its
  receipt (``a Completed Settlement has a non-null transaction\_hash'') and the number of
  retries it took.
\<close>

definition completed :: "Env \<Rightarrow> Receipt \<Rightarrow> Settlement \<Rightarrow> Settlement" where
  "completed env receipt s =
     s\<lparr>s_status := Completed,
       transaction_hash := Some (receipt_transaction_hash receipt),
       gas_used := Some (receipt_gas_used receipt),
       retry_count := execution_retries env\<rparr>"

text \<open>
  Modelled from the spec: the completion. ``On status=1: Completed; commit(amount +
  gas\_used \<times> effective\_gas\_price); mark Quote Settled.''
\<close>

definition complete_settlement :: "Env \<Rightarrow> Settlement \<Rightarrow> Receipt \<Rightarrow> Engine \<Rightarrow> Engine" where
  "complete_settlement env s receipt eng =
     eng\<lparr>stable_settlements :=
            map (\<lambda>s'. if s_id s' = s_id s \<and> s_status s' = Executing
                       then completed env receipt s' else s')
              (stable_settlements eng),
         stable_quotes :=
           map (\<lambda>q. if q_id q = quote_id s then q\<lparr>q_status := Settled\<rparr> else q)
             (stable_quotes eng),
         reserve_state :=
           commit (now env)
             (amount s + receipt_gas_used receipt * receipt_effective_gas_price receipt)
             (reserve_state eng)\<rparr>"

text \<open>
  Modelled from the spec: the end of an execution. The retries against the chain happen
  outside; what reaches the engine is how many there were and either the receipt or the
  error that ended them. A receipt with status 1 completes the settlement; ``on status=0 or
  timeout exceeded: Failed''. The step answers with nothing when no settlement of that
  identifier is \<open>Executing\<close>.
\<close>

definition execute_step :: "Env \<Rightarrow> string \<Rightarrow> Engine \<Rightarrow> (Error + Settlement) option \<times> Engine" where
  "execute_step env sid eng =
     (case find (\<lambda>s. s_id s = sid \<and> s_status s = Executing) (stable_settlements eng) of
        None \<Rightarrow> (None, eng)
      | Some s \<Rightarrow>
          (case execution env of
             Inl e \<Rightarrow> (Some (Inl e), fail_settlement (now env) s e eng)
           | Inr receipt \<Rightarrow>
               if receipt_success receipt
               then (Some (Inr (completed env receipt s)), complete_settlement env s receipt eng)
               else (Some (Inl RpcError_UpstreamRevert),
                     fail_settlement (now env) s RpcError_UpstreamRevert eng)))"

text \<open>
  Modelled from the spec: a settlement driven from \<open>Pending\<close> to its end without a call
  in between, the verification and then the execution. (The two answers \<open>ConfigError\<close>
  stand where a step finds no settlement to work on, which does not happen for a settlement
  just created.)
\<close>

definition drive_settlement :: "Env \<Rightarrow> string \<Rightarrow> Engine \<Rightarrow> (Error + Settlement) \<times> Engine" where
  "drive_settlement env sid eng =
     (case verify_step env sid eng of
        (None, eng1) \<Rightarrow> (Inl ConfigError, eng1)
      | (Some (Inl e), eng1) \<Rightarrow> (Inl e, eng1)
      | (Some (Inr s), eng1) \<Rightarrow>
          (case execute_step env sid eng1 of
             (None, eng2) \<Rightarrow> (Inl ConfigError, eng2)
           | (Some r, eng2) \<Rightarrow> (r, eng2)))"

text \<open>
  Modelled from the spec: \<open>settle_quote(quote_id, payment_proof)\<close> as one call that
  runs to the end: the sweep of the entry point, the first step, and for a settlement it
  has just created the verification and the execution. It answers with the existing
  settlement, with the completed settlement, or with the error that refused the call or made
  the settlement fail.
\<close>

definition engine_settle_quote ::
  "Env \<Rightarrow> string \<Rightarrow> string \<Rightarrow> Engine \<Rightarrow> (Error + Settlement) \<times> Engine" where
  "engine_settle_quote env qid proof_id eng0 =
     (case open_settlement (now env) qid proof_id (sweep (now env) eng0) of
        (Inl e, eng) \<Rightarrow> (Inl e, eng)
      | (Inr (Existing s), eng) \<Rightarrow> (Inr s, eng)
      | (Inr (Created s), eng) \<Rightarrow> drive_settlement env (s_id s) eng)"

text \<open>
  Modelled from the spec: \<open>bridge_assets\<close>, the ``combined flow: issues a quote and drives
  the settlement inline using the caller's linked source-side payment''. With a payment
  proof that a settlement already carries it ``returns the existing Settlement''.
\<close>

definition engine_bridge_assets ::
  "Env \<Rightarrow> Principal \<Rightarrow> u64 \<Rightarrow> string \<Rightarrow> string \<Rightarrow> Engine \<Rightarrow> (Error + Settlement) \<times> Engine" where
  "engine_bridge_assets env user amt destination_address destination_chain eng0 =
     (let eng = sweep (now env) eng0 in
      case find (\<lambda>s. payment_proof s = linked_payment env) (stable_settlements eng) of
        Some s \<Rightarrow> (Inr s, eng)
      | None \<Rightarrow>
          (case engine_request_quote env user amt destination_address destination_chain eng of
             (Inl e, eng') \<Rightarrow> (Inl e, eng')
           | (Inr q, eng') \<Rightarrow> engine_settle_quote env (q_id q) (linked_payment env) eng'))"

subsection \<open>API surface\<close>

text \<open>
  Modelled from the spec: the reply \<open>{ Ok : T } | { Err : text }\<close> of the declared
  interface for a result of the engine; an error leaves the engine as its classified string
  (``user-visible errors are short, classified strings'').
\<close>

definition reply :: "Error + 'a \<Rightarrow> 'a Result" where
  "reply r = (case r of Inl e \<Rightarrow> Err (error_text e) | Inr v \<Rightarrow> Ok v)"

text \<open>
  Modelled from the spec: \<open>request_quote(amount_wei, dest_addr, dest_chain)\<close> of the API
  surface; the user is the caller.
\<close>

definition api_request_quote ::
  "Env \<Rightarrow> Principal \<Rightarrow> u64 \<Rightarrow> string \<Rightarrow> string \<Rightarrow> Engine \<Rightarrow> Quote Result \<times> Engine" where
  "api_request_quote env caller amount_wei dest_addr dest_chain eng =
     (case engine_request_quote env caller amount_wei dest_addr dest_chain eng of
        (r, eng') \<Rightarrow> (reply r, eng'))"

text \<open>
  Modelled from the spec: \<open>bridge_assets(amount_wei, dest_addr, dest_chain)\<close> of the API
  surface; the user is the caller.
\<close>

definition api_bridge_assets ::
  "Env \<Rightarrow> Principal \<Rightarrow> u64 \<Rightarrow> string \<Rightarrow> string \<Rightarrow> Engine \<Rightarrow> Settlement Result \<times> Engine" where
  "api_bridge_assets env caller amount_wei dest_addr dest_chain eng =
     (case engine_bridge_assets env caller amount_wei dest_addr dest_chain eng of
        (r, eng') \<Rightarrow> (reply r, eng'))"

text \<open>
  Modelled from the spec: \<open>settle_quote(quote_id, payment_proof)\<close> of the API surface.
\<close>

definition api_settle_quote ::
  "Env \<Rightarrow> Principal \<Rightarrow> string \<Rightarrow> string \<Rightarrow> Engine \<Rightarrow> Settlement Result \<times> Engine" where
  "api_settle_quote env caller qid proof_id eng =
     (case engine_settle_quote env qid proof_id eng of (r, eng') \<Rightarrow> (reply r, eng'))"

text \<open>
  Modelled from the spec: what can happen to the engine. ``Request handlers execute to
  completion or until an explicit suspension point at an outbound network call'' and
  interleave only there; so besides the whole calls there are the steps of a settlement one
  by one, between which other calls may come.
\<close>

datatype Call =
    RequestQuote Principal u64 string string
  | SettleQuote Principal string string
  | BridgeAssets Principal u64 string string
  | CheckExpiry string
  | OpenSettlement string string
  | VerifyPayment string
  | Execute string
  | AdminCall Principal AdminOp

text \<open>
  Modelled from the spec: the engine after one call or step in its surroundings. An admin
  call is by a member of \<open>admins\<close> or fails and changes nothing.
\<close>

fun engine_call :: "Env \<Rightarrow> Call \<Rightarrow> Engine \<Rightarrow> Engine" where
  "engine_call env (RequestQuote caller amt addr chain) eng =
     snd (api_request_quote env caller amt addr chain eng)"
| "engine_call env (SettleQuote caller qid proof_id) eng =
     snd (api_settle_quote env caller qid proof_id eng)"
| "engine_call env (BridgeAssets caller amt addr chain) eng =
     snd (api_bridge_assets env caller amt addr chain eng)"
| "engine_call env (CheckExpiry qid) eng = check_expiry (now env) qid eng"
| "engine_call env (OpenSettlement qid proof_id) eng =
     snd (open_settlement (now env) qid proof_id (sweep (now env) eng))"
| "engine_call env (VerifyPayment sid) eng = snd (verify_step env sid eng)"
| "engine_call env (Execute sid) eng = snd (execute_step env sid eng)"
| "engine_call env (AdminCall caller op) eng =
     (case admin_op (caller \<in> set (admins eng)) (now env) op (reserve_state eng) of
        Inl e \<Rightarrow> eng
      | Inr r \<Rightarrow> eng\<lparr>reserve_state := r\<rparr>)"

text \<open>
  Modelled from the spec: a history of the engine, the calls and steps one after another,
  each in its own surroundings.
\<close>

fun engine_history :: "(Env \<times> Call) list \<Rightarrow> Engine \<Rightarrow> Engine" where
  "engine_history [] eng = eng"
| "engine_history ((env, call) # rest) eng = engine_history rest (engine_call env call eng)"

text \<open>
  Modelled from the spec: the default configuration. The defaults the specification names
  are a validity of 15 minutes and a safety margin of 20 percent; the amounts, the gas cap
  and the chains have none.
\<close>

definition default_config :: "u64 \<Rightarrow> u64 \<Rightarrow> u64 \<Rightarrow> string list \<Rightarrow> BridgeConfig" where
  "default_config lowest highest gas_cap chain_names =
     \<lparr> max_quote_amount = highest, min_quote_amount = lowest, quote_validity_minutes = 15,
       max_gas_price = gas_cap, safety_margin_percent = 20, supported_chains = chain_names \<rparr>"

text \<open>
  Modelled from the spec: the engine at initialisation, with no quotes and no settlements,
  a reserve, a configuration and ``one bootstrap admin''.
\<close>

definition init_engine :: "BridgeConfig \<Rightarrow> Reserve \<Rightarrow> Principal \<Rightarrow> Engine" where
  "init_engine cfg r admin =
     \<lparr> stable_quotes = [], stable_settlements = [], reserve_state = r, config = cfg,
       admins = [admin], next_id = 0 \<rparr>"

section \<open>Measures and sample inputs\<close>

text \<open>The three collections the store caches.\<close>

definition cached :: "('g, 'q, 's, 'r, 't, 'p) CanisterStore \<Rightarrow> 'q list \<times> 's list \<times> 't list" where
  "cached st = (quotes st, settlements st, userTransactions st)"

text \<open>
  The number of attempts that have ended in failure, and of those among them that
  \<open>retryConnection\<close> began.
\<close>

definition failures :: "(bool \<times> bool) list \<Rightarrow> nat" where
  "failures es = length (filter (\<lambda>e. \<not> snd e) es)"

definition failed_retries :: "(bool \<times> bool) list \<Rightarrow> nat" where
  "failed_retries es = length (filter (\<lambda>e. fst e \<and> \<not> snd e) es)"

text \<open>
  An actor whose quotes, settlements and transactions are plain numbers: it refuses a quote
  for the amount zero, loses the connection on \<open>bridge_assets\<close>, settles, and finds no
  payment.
\<close>

definition sample_thrown :: thrown where
  "sample_thrown =
     \<lparr> instanceof_Error = True, message = ''network down'', rendered = ''Error: network down'' \<rparr>"

definition sample_actor :: "(nat, nat, nat, nat) GaslessBridgeCanister" where
  "sample_actor =
     \<lparr> request_quote =
         (\<lambda>amt addr chain. if amt = 0 then Resolves (Err ''ValidationError'') else Resolves (Ok amt)),
       bridge_assets = (\<lambda>amt addr chain. Rejects sample_thrown),
       settle_quote = (\<lambda>quoteId paymentProof. Resolves (Ok 7)),
       get_detailed_reserve_status = Resolves 0,
       get_rpc_cache_stats = Resolves (Ok ''hits: 0''),
       create_icp_payment = (\<lambda>amt addr chain. Resolves (Err ''PaymentError.NotFound'')) \<rparr>"

definition sample_store :: "(unit, nat, nat, nat, nat, nat) CanisterStore" where
  "sample_store =
     initial_store\<lparr>actor := Some sample_actor, isConnected := True, quotes := [1],
                   settlements := [2]\<rparr>"

definition sample_connection :: "(unit, nat, nat, nat, nat) connection" where
  "sample_connection = Resolves ((), sample_actor, 0)"

definition sample_failure :: "(unit, nat, nat, nat, nat) connection" where
  "sample_failure = Rejects sample_thrown"

text \<open>
  A reserve of one hundred units of which sixty are locked, and the history that leads to
  it from the empty reserve.
\<close>

definition sample_reserve :: Reserve where
  "sample_reserve = (empty_reserve 20 5 1000 0)\<lparr>balance := 100, locked := 60\<rparr>"

definition sample_history :: "(u64 \<times> ReserveOp) list" where
  "sample_history = [(10, Admin True (Topup 100)), (20, Lock 60)]"

text \<open>
  The identifiers of the settlements that carry a payment proof, and the settlements that
  carry it and are completed.
\<close>

definition carried :: "string \<Rightarrow> Engine \<Rightarrow> string list" where
  "carried p eng = map s_id (filter (\<lambda>s. payment_proof s = p) (stable_settlements eng))"

definition completed_with :: "string \<Rightarrow> Engine \<Rightarrow> Settlement list" where
  "completed_with p eng =
     filter (\<lambda>s. payment_proof s = p \<and> s_status s = Completed) (stable_settlements eng)"

text \<open>
  The two invariants of the stored settlements: no payment proof is carried by two
  settlements, and no quote has two settlements that have not failed.
\<close>

definition proofs_unique :: "Engine \<Rightarrow> bool" where
  "proofs_unique eng = (\<forall>p. length (carried p eng) \<le> 1)"

definition settled_once :: "Engine \<Rightarrow> bool" where
  "settled_once eng = (\<forall>qid. length (live_settlements qid eng) \<le> 1)"

text \<open>
  What a call that settles uses and answers: \<open>settle_quote\<close> is given its payment proof,
  \<open>bridge_assets\<close> uses the caller's linked payment. The replies of a history are the
  answers of its calls that settle, each with the proof the call used, in order.
\<close>

fun settling :: "Env \<Rightarrow> Call \<Rightarrow> Engine \<Rightarrow> (string \<times> Settlement Result) option" where
  "settling env (SettleQuote caller qid proof_id) eng =
     Some (proof_id, fst (api_settle_quote env caller qid proof_id eng))"
| "settling env (BridgeAssets caller amt addr chain) eng =
     Some (linked_payment env, fst (api_bridge_assets env caller amt addr chain eng))"
| "settling env other eng = None"

fun settlement_replies ::
  "(Env \<times> Call) list \<Rightarrow> Engine \<Rightarrow> (string \<times> Settlement Result) list" where
  "settlement_replies [] eng = []"
| "settlement_replies ((env, call) # rest) eng =
     (case settling env call eng of
        None \<Rightarrow> settlement_replies rest (engine_call env call eng)
      | Some answer \<Rightarrow> answer # settlement_replies rest (engine_call env call eng))"

text \<open>
  An engine with the default validity and a funded reserve, and surroundings in which the
  gas estimate is that of the specification's first scenario (in wei rather than gwei), a
  unit of the source token is worth one wei, the payment \<open>P1\<close> of the caller is final on
  the ledger and the transaction succeeds. In them a caller bridges a million wei, asks for
  the settlement of the quote again, and bridges again with the same payment.
\<close>

definition sample_address :: string where
  "sample_address = ''0x742d35Cc6634C0532925a3b844Bc9e7595f03Ab0''"

definition sample_env :: Env where
  "sample_env =
     \<lparr> now = 1000,
       gas_feed =
         Inr \<lparr> est_base_fee = 30, est_priority_fee = 1, est_max_fee_per_gas = 61,
               est_gas_estimate = 21000 \<rparr>,
       price_feed = Inr (\<lambda>wei. \<lparr> total_cost_source = wei, margin_source = 0 \<rparr>),
       linked_payment = ''P1'',
       ledger =
         (\<lambda>p. if p = ''P1''
              then Some \<lparr> transfer_from = ''alice'', transfer_amount = 10000000,
                          transfer_final = True \<rparr>
              else None),
       execution_retries = 0,
       execution =
         Inr \<lparr> receipt_success = True, receipt_transaction_hash = ''0xabc'',
               receipt_gas_used = 21000, receipt_effective_gas_price = 31 \<rparr> \<rparr>"

definition sample_engine :: Engine where
  "sample_engine =
     init_engine (default_config 1 5000000 100 [''Base Sepolia''])
       ((empty_reserve 20 5 100000000 0)\<lparr>balance := 50000000\<rparr>) ''admin''"

definition sample_bridge :: "Env \<times> Call" where
  "sample_bridge = (sample_env, BridgeAssets ''alice'' 1000000 sample_address ''Base Sepolia'')"

definition sample_calls :: "(Env \<times> Call) list" where
  "sample_calls = [sample_bridge, (sample_env, SettleQuote ''alice'' ''Q0'' ''P1''), sample_bridge]"

text \<open>The quote and the settlement that these calls make.\<close>

definition sample_quote :: Quote where
  "sample_quote =
     \<lparr> q_id = ''Q0'', q_destination_address = sample_address, source_chain = ''ICP'',
       q_status = Active, base_fee = 30, q_user_principal = ''alice'',
       q_destination_chain = ''Base Sepolia'', safety_margin = 0, amount_requested = 1000000,
       priority_fee = 1, gas_estimate = 21000, total_cost = 2281000, q_created_at = 1000,
       max_fee_per_gas = 61, amount_out = 1000000, amount_in = 2281000, expires_at = 1900 \<rparr>"

definition sample_settlement :: Settlement where
  "sample_settlement =
     \<lparr> s_id = ''S1'', s_destination_address = sample_address, last_error = None,
       s_status = Completed, s_user_principal = ''alice'', transaction_hash = Some ''0xabc'',
       s_destination_chain = ''Base Sepolia'', retry_count = 0, s_created_at = 1000,
       payment_proof = ''P1'', quote_id = ''Q0'', gas_used = Some 21000, amount = 1000000 \<rparr>"

section \<open>Properties of the interface descriptions\<close>

lemma frontend_method_names:
  "map fst frontend_idlFactory =
     [''request_quote'', ''bridge_assets'', ''settle_quote'', ''get_quote_by_id'',
      ''get_settlement_by_id'', ''get_detailed_reserve_status'', ''get_rpc_cache_stats'',
      ''clear_rpc_cache'', ''invalidate_gas_cache'', ''run_comprehensive_test_suite'',
      ''create_icp_payment'', ''get_sponsorship_status'', ''get_user_transactions'',
      ''get_user_transaction'']"
  by (simp add: frontend_idlFactory_def)

lemma canister_lacks_get_quote_by_id:
  "map_of canister_idlFactory ''get_quote_by_id'' = None"
  by code_simp

lemma canister_lacks_get_settlement_by_id:
  "map_of canister_idlFactory ''get_settlement_by_id'' = None"
  by code_simp

lemma canister_has_request_quote:
  "map_of canister_idlFactory ''request_quote'' \<noteq> None"
  by code_simp

lemma canister_has_bridge_assets:
  "map_of canister_idlFactory ''bridge_assets'' \<noteq> None"
  by code_simp

lemma canister_has_settle_quote:
  "map_of canister_idlFactory ''settle_quote'' \<noteq> None"
  by code_simp

lemma canister_has_get_detailed_reserve_status:
  "map_of canister_idlFactory ''get_detailed_reserve_status'' \<noteq> None"
  by code_simp

lemma canister_has_get_rpc_cache_stats:
  "map_of canister_idlFactory ''get_rpc_cache_stats'' \<noteq> None"
  by code_simp

lemma canister_has_clear_rpc_cache:
  "map_of canister_idlFactory ''clear_rpc_cache'' \<noteq> None"
  by code_simp

lemma canister_has_invalidate_gas_cache:
  "map_of canister_idlFactory ''invalidate_gas_cache'' \<noteq> None"
  by code_simp

lemma canister_has_run_comprehensive_test_suite:
  "map_of canister_idlFactory ''run_comprehensive_test_suite'' \<noteq> None"
  by code_simp

lemma canister_has_create_icp_payment:
  "map_of canister_idlFactory ''create_icp_payment'' \<noteq> None"
  by code_simp

lemma canister_has_get_sponsorship_status:
  "map_of canister_idlFactory ''get_sponsorship_status'' \<noteq> None"
  by code_simp

lemma canister_has_get_user_transactions:
  "map_of canister_idlFactory ''get_user_transactions'' \<noteq> None"
  by code_simp

lemma canister_has_get_user_transaction:
  "map_of canister_idlFactory ''get_user_transaction'' \<noteq> None"
  by code_simp

lemmas canister_declares =
  canister_lacks_get_quote_by_id canister_lacks_get_settlement_by_id canister_has_request_quote
  canister_has_bridge_assets canister_has_settle_quote canister_has_get_detailed_reserve_status
  canister_has_get_rpc_cache_stats canister_has_clear_rpc_cache
  canister_has_invalidate_gas_cache canister_has_run_comprehensive_test_suite
  canister_has_create_icp_payment canister_has_get_sponsorship_status
  canister_has_get_user_transactions canister_has_get_user_transaction

lemma request_quote_disagrees:
  "\<not> method_agrees frontend_idlFactory canister_idlFactory ''request_quote''"
  by code_simp

lemma bridge_assets_agrees:
  "method_agrees frontend_idlFactory canister_idlFactory ''bridge_assets''"
  by code_simp

lemma settle_quote_agrees:
  "method_agrees frontend_idlFactory canister_idlFactory ''settle_quote''"
  by code_simp

lemma get_quote_by_id_disagrees:
  "\<not> method_agrees frontend_idlFactory canister_idlFactory ''get_quote_by_id''"
  by code_simp

lemma get_settlement_by_id_disagrees:
  "\<not> method_agrees frontend_idlFactory canister_idlFactory ''get_settlement_by_id''"
  by code_simp

lemma get_detailed_reserve_status_agrees:
  "method_agrees frontend_idlFactory canister_idlFactory ''get_detailed_reserve_status''"
  by code_simp

lemma get_rpc_cache_stats_disagrees:
  "\<not> method_agrees frontend_idlFactory canister_idlFactory ''get_rpc_cache_stats''"
  by code_simp

lemma clear_rpc_cache_disagrees:
  "\<not> method_agrees frontend_idlFactory canister_idlFactory ''clear_rpc_cache''"
  by code_simp

lemma invalidate_gas_cache_disagrees:
  "\<not> method_agrees frontend_idlFactory canister_idlFactory ''invalidate_gas_cache''"
  by code_simp

lemma run_comprehensive_test_suite_disagrees:
  "\<not> method_agrees frontend_idlFactory canister_idlFactory ''run_comprehensive_test_suite''"
  by code_simp

lemma create_icp_payment_agrees:
  "method_agrees frontend_idlFactory canister_idlFactory ''create_icp_payment''"
  by code_simp

lemma get_sponsorship_status_agrees:
  "method_agrees frontend_idlFactory canister_idlFactory ''get_sponsorship_status''"
  by code_simp

lemma get_user_transactions_agrees:
  "method_agrees frontend_idlFactory canister_idlFactory ''get_user_transactions''"
  by code_simp

lemma get_user_transaction_agrees:
  "method_agrees frontend_idlFactory canister_idlFactory ''get_user_transaction''"
  by code_simp

lemmas binding_agreement =
  request_quote_disagrees bridge_assets_agrees settle_quote_agrees get_quote_by_id_disagrees
  get_settlement_by_id_disagrees get_detailed_reserve_status_agrees
  get_rpc_cache_stats_disagrees clear_rpc_cache_disagrees invalidate_gas_cache_disagrees
  run_comprehensive_test_suite_disagrees create_icp_payment_agrees
  get_sponsorship_status_agrees get_user_transactions_agrees get_user_transaction_agrees

text \<open>
  C3, as stated: the status of a quote ranges over exactly Active, Settled, Expired and
  Failed, so Failed is a possible status. In the canister's own description of \<open>Quote\<close>
  the status field has the type \<open>QuoteStatus\<close>, and \<open>Failed\<close> is not one of its
  alternatives.
\<close>

theorem quote_status_failed_counterexample:
  "record_field canister_Quote ''status'' = Some canister_QuoteStatus \<and>
   ''Failed'' \<notin> set (variant_tags canister_QuoteStatus)"
  by (simp add: canister_Quote_def canister_QuoteStatus_def)

text \<open>
  C3, amended: a quote of the canister has one of exactly three statuses, Active, Expired
  and Settled. The frontend's binding lists a fourth alternative, Failed; its alternatives
  include the canister's three, so every status the canister sends is one the frontend
  knows, and Failed is never sent.
\<close>

theorem quote_status_domain:
  "record_field canister_Quote ''status'' = Some canister_QuoteStatus \<and>
   set (variant_tags canister_QuoteStatus) = {''Active'', ''Expired'', ''Settled''} \<and>
   (UNIV :: QuoteStatus set) = {Active, Expired, Settled} \<and>
   record_field frontend_Quote ''status'' = Some frontend_QuoteStatus \<and>
   set (variant_tags frontend_QuoteStatus) = {''Active'', ''Settled'', ''Expired'', ''Failed''} \<and>
   set (variant_tags canister_QuoteStatus) \<subseteq> set (variant_tags frontend_QuoteStatus)"
proof (intro conjI)
  show "(UNIV :: QuoteStatus set) = {Active, Expired, Settled}"
  proof (rule set_eqI)
    fix x :: QuoteStatus
    show "x \<in> UNIV \<longleftrightarrow> x \<in> {Active, Expired, Settled}"
      by (cases x) simp_all
  qed
  show "record_field canister_Quote ''status'' = Some canister_QuoteStatus"
    by (simp add: canister_Quote_def)
  show "set (variant_tags canister_QuoteStatus) = {''Active'', ''Expired'', ''Settled''}"
    by (simp add: canister_QuoteStatus_def)
  show "record_field frontend_Quote ''status'' = Some frontend_QuoteStatus"
    by (simp add: frontend_Quote_def)
  show "set (variant_tags frontend_QuoteStatus) = {''Active'', ''Settled'', ''Expired'', ''Failed''}"
    by (simp add: frontend_QuoteStatus_def)
  show "set (variant_tags canister_QuoteStatus) \<subseteq> set (variant_tags frontend_QuoteStatus)"
    by (simp add: canister_QuoteStatus_def frontend_QuoteStatus_def)
qed

text \<open>
  C8: every method of the frontend's binding is a method of the canister's service with
  the same argument and result types. The code does not have this property. Two methods of
  the frontend's binding, \<open>get_quote_by_id\<close> and \<open>get_settlement_by_id\<close>, are not
  declared by the canister at all, and five more are declared with other result types:
  \<open>request_quote\<close> (the frontend's \<open>QuoteStatus\<close> has the extra alternative) and the
  four cache and test methods, which answer with a text where the frontend expects a
  variant of \<open>Ok\<close> and \<open>Err\<close>.
\<close>

theorem frontend_binding_disagrees:
  "[m \<leftarrow> map fst frontend_idlFactory. map_of canister_idlFactory m = None] =
     [''get_quote_by_id'', ''get_settlement_by_id''] \<and>
   [m \<leftarrow> map fst frontend_idlFactory. \<not> method_agrees frontend_idlFactory canister_idlFactory m] =
     [''request_quote'', ''get_quote_by_id'', ''get_settlement_by_id'', ''get_rpc_cache_stats'',
      ''clear_rpc_cache'', ''invalidate_gas_cache'', ''run_comprehensive_test_suite'']"
  by (simp add: frontend_method_names canister_declares binding_agreement)

section \<open>Properties of the client-side store\<close>

lemma requestQuote_outcome:
  assumes "actor st = Some a"
  shows "(case request_quote a amt addr chain of
            Resolves (Ok v) \<Rightarrow>
              fst (requestQuote amt addr chain st) = Some v \<and>
              cached (snd (requestQuote amt addr chain st)) =
                (quotes st @ [v], settlements st, userTransactions st)
          | Resolves (Err e) \<Rightarrow>
              fst (requestQuote amt addr chain st) = None \<and>
              error (snd (requestQuote amt addr chain st)) = Some e \<and>
              cached (snd (requestQuote amt addr chain st)) = cached st
          | Rejects x \<Rightarrow>
              fst (requestQuote amt addr chain st) = None \<and>
              error (snd (requestQuote amt addr chain st)) =
                Some (''Failed to request quote: '' @ rendered x) \<and>
              cached (snd (requestQuote amt addr chain st)) = cached st)"
  using assms
  by (simp add: requestQuote_def cached_def Let_def split: call.split Result.split)

lemma bridgeAssets_outcome:
  assumes "actor st = Some a"
  shows "(case bridge_assets a amt addr chain of
            Resolves (Ok v) \<Rightarrow>
              fst (bridgeAssets amt addr chain st) = Some v \<and>
              cached (snd (bridgeAssets amt addr chain st)) =
                (quotes st, settlements st @ [v], userTransactions st)
          | Resolves (Err e) \<Rightarrow>
              fst (bridgeAssets amt addr chain st) = None \<and>
              error (snd (bridgeAssets amt addr chain st)) = Some e \<and>
              cached (snd (bridgeAssets amt addr chain st)) = cached st
          | Rejects x \<Rightarrow>
              fst (bridgeAssets amt addr chain st) = None \<and>
              error (snd (bridgeAssets amt addr chain st)) =
                Some (''Failed to bridge assets: '' @ rendered x) \<and>
              cached (snd (bridgeAssets amt addr chain st)) = cached st)"
  using assms
  by (simp add: bridgeAssets_def cached_def Let_def split: call.split Result.split)

lemma settleQuote_outcome:
  assumes "actor st = Some a"
  shows "(case settle_quote a quoteId paymentProof of
            Resolves (Ok v) \<Rightarrow>
              fst (settleQuote quoteId paymentProof st) = Some v \<and>
              cached (snd (settleQuote quoteId paymentProof st)) =
                (quotes st, settlements st @ [v], userTransactions st)
          | Resolves (Err e) \<Rightarrow>
              fst (settleQuote quoteId paymentProof st) = None \<and>
              error (snd (settleQuote quoteId paymentProof st)) = Some e \<and>
              cached (snd (settleQuote quoteId paymentProof st)) = cached st
          | Rejects x \<Rightarrow>
              fst (settleQuote quoteId paymentProof st) = None \<and>
              error (snd (settleQuote quoteId paymentProof st)) =
                Some (''Failed to settle quote: '' @ rendered x) \<and>
              cached (snd (settleQuote quoteId paymentProof st)) = cached st)"
  using assms
  by (simp add: settleQuote_def cached_def Let_def split: call.split Result.split)

lemma createIcpPayment_outcome:
  assumes "actor st = Some a"
  shows "(case create_icp_payment a amt addr chain of
            Resolves (Ok v) \<Rightarrow>
              fst (createIcpPayment amt addr chain st) = Some v \<and>
              cached (snd (createIcpPayment amt addr chain st)) =
                (quotes st, settlements st, userTransactions st @ [v])
          | Resolves (Err e) \<Rightarrow>
              fst (createIcpPayment amt addr chain st) = None \<and>
              error (snd (createIcpPayment amt addr chain st)) = Some e \<and>
              cached (snd (createIcpPayment amt addr chain st)) = cached st
          | Rejects x \<Rightarrow>
              fst (createIcpPayment amt addr chain st) = None \<and>
              error (snd (createIcpPayment amt addr chain st)) =
                Some (''Failed to create automatic ICP payment: '' @ rendered x) \<and>
              cached (snd (createIcpPayment amt addr chain st)) = cached st)"
  using assms
  by (simp add: createIcpPayment_def cached_def Let_def split: call.split Result.split)

text \<open>
  C9: in each of \<open>requestQuote\<close>, \<open>bridgeAssets\<close>, \<open>settleQuote\<close> and
  \<open>createIcpPayment\<close>, with an actor at hand: when the call of the actor answers
  \<open>Ok v\<close>, the action returns \<open>v\<close> and appends it to its collection, and the other two
  collections stay as they were; when it answers \<open>Err e\<close> or throws, the action returns
  null, the three collections stay as they were, and \<open>error\<close> holds the message of the
  failure: \<open>e\<close> itself, or what was thrown, written after the words the action puts in
  front of it.
\<close>

theorem store_error_atomicity:
  assumes "actor st = Some a"
  shows
    "(case request_quote a amt addr chain of
        Resolves (Ok v) \<Rightarrow>
          fst (requestQuote amt addr chain st) = Some v \<and>
          cached (snd (requestQuote amt addr chain st)) =
            (quotes st @ [v], settlements st, userTransactions st)
      | Resolves (Err e) \<Rightarrow>
          fst (requestQuote amt addr chain st) = None \<and>
          error (snd (requestQuote amt addr chain st)) = Some e \<and>
          cached (snd (requestQuote amt addr chain st)) = cached st
      | Rejects x \<Rightarrow>
          fst (requestQuote amt addr chain st) = None \<and>
          error (snd (requestQuote amt addr chain st)) =
            Some (''Failed to request quote: '' @ rendered x) \<and>
          cached (snd (requestQuote amt addr chain st)) = cached st) \<and>
     (case bridge_assets a amt addr chain of
        Resolves (Ok v) \<Rightarrow>
          fst (bridgeAssets amt addr chain st) = Some v \<and>
          cached (snd (bridgeAssets amt addr chain st)) =
            (quotes st, settlements st @ [v], userTransactions st)
      | Resolves (Err e) \<Rightarrow>
          fst (bridgeAssets amt addr chain st) = None \<and>
          error (snd (bridgeAssets amt addr chain st)) = Some e \<and>
          cached (snd (bridgeAssets amt addr chain st)) = cached st
      | Rejects x \<Rightarrow>
          fst (bridgeAssets amt addr chain st) = None \<and>
          error (snd (bridgeAssets amt addr chain st)) =
            Some (''Failed to bridge assets: '' @ rendered x) \<and>
          cached (snd (bridgeAssets amt addr chain st)) = cached st) \<and>
     (case settle_quote a quoteId paymentProof of
        Resolves (Ok v) \<Rightarrow>
          fst (settleQuote quoteId paymentProof st) = Some v \<and>
          cached (snd (settleQuote quoteId paymentProof st)) =
            (quotes st, settlements st @ [v], userTransactions st)
      | Resolves (Err e) \<Rightarrow>
          fst (settleQuote quoteId paymentProof st) = None \<and>
          error (snd (settleQuote quoteId paymentProof st)) = Some e \<and>
          cached (snd (settleQuote quoteId paymentProof st)) = cached st
      | Rejects x \<Rightarrow>
          fst (settleQuote quoteId paymentProof st) = None \<and>
          error (snd (settleQuote quoteId paymentProof st)) =
            Some (''Failed to settle quote: '' @ rendered x) \<and>
          cached (snd (settleQuote quoteId paymentProof st)) = cached st) \<and>
     (case create_icp_payment a amt addr chain of
        Resolves (Ok v) \<Rightarrow>
          fst (createIcpPayment amt addr chain st) = Some v \<and>
          cached (snd (createIcpPayment amt addr chain st)) =
            (quotes st, settlements st, userTransactions st @ [v])
      | Resolves (Err e) \<Rightarrow>
          fst (createIcpPayment amt addr chain st) = None \<and>
          error (snd (createIcpPayment amt addr chain st)) = Some e \<and>
          cached (snd (createIcpPayment amt addr chain st)) = cached st
      | Rejects x \<Rightarrow>
          fst (createIcpPayment amt addr chain st) = None \<and>
          error (snd (createIcpPayment amt addr chain st)) =
            Some (''Failed to create automatic ICP payment: '' @ rendered x) \<and>
          cached (snd (createIcpPayment amt addr chain st)) = cached st)"
  using requestQuote_outcome [OF assms, of amt addr chain]
    bridgeAssets_outcome [OF assms, of amt addr chain]
    settleQuote_outcome [OF assms, of quoteId paymentProof]
    createIcpPayment_outcome [OF assms, of amt addr chain]
  by (intro conjI)

theorem store_error_atomicity_witness:
  "actor sample_store = Some sample_actor \<and>
   requestQuote 5 ''0xabc'' ''Base Sepolia'' sample_store =
     (Some 5, sample_store\<lparr>error := None, quotes := [1, 5]\<rparr>) \<and>
   fst (requestQuote 0 ''0xabc'' ''Base Sepolia'' sample_store) = None \<and>
   error (snd (requestQuote 0 ''0xabc'' ''Base Sepolia'' sample_store)) = Some ''ValidationError'' \<and>
   cached (snd (requestQuote 0 ''0xabc'' ''Base Sepolia'' sample_store)) = ([1], [2], []) \<and>
   fst (bridgeAssets 5 ''0xabc'' ''Base Sepolia'' sample_store) = None \<and>
   error (snd (bridgeAssets 5 ''0xabc'' ''Base Sepolia'' sample_store)) =
     Some ''Failed to bridge assets: Error: network down'' \<and>
   cached (snd (bridgeAssets 5 ''0xabc'' ''Base Sepolia'' sample_store)) = ([1], [2], []) \<and>
   fst (settleQuote ''Q0'' ''proof'' sample_store) = Some 7 \<and>
   cached (snd (settleQuote ''Q0'' ''proof'' sample_store)) = ([1], [2, 7], [])"
proof -
  have a: "actor sample_store = Some sample_actor"
    by (simp add: sample_store_def)
  have "requestQuote 5 ''0xabc'' ''Base Sepolia'' sample_store =
     (Some 5, sample_store\<lparr>error := None, quotes := [1, 5]\<rparr>)"
    by (simp add: requestQuote_def sample_store_def sample_actor_def initial_store_def)
  with a store_error_atomicity [OF a, of 0 "''0xabc''" "''Base Sepolia''" "''Q0''" "''proof''"]
    store_error_atomicity [OF a, of 5 "''0xabc''" "''Base Sepolia''" "''Q0''" "''proof''"]
  show ?thesis
    by (simp add: sample_actor_def sample_thrown_def cached_def sample_store_def initial_store_def)
qed

section \<open>Properties of connecting and retrying\<close>

lemma store_retryCount [simp]:
  "retryCount (initializeCanister_begins st) = retryCount st"
  "retryCount (initializeCanister_connects g a r st) = retryCount st"
  "retryCount (initializeCanister_throws e st) = retryCount st + 1"
  "retryCount (getCacheStats_arrives a st) = retryCount st"
  by (simp_all add: initializeCanister_begins_def initializeCanister_connects_def
      initializeCanister_throws_def getCacheStats_arrives_def split: call.split Result.split)

lemma failures_append [simp]:
  "failures (es @ [(by_retry, True)]) = failures es"
  "failures (es @ [(by_retry, False)]) = failures es + 1"
  by (simp_all add: failures_def)

lemma failed_retries_append [simp]:
  "failed_retries (es @ [(by_retry, True)]) = failed_retries es"
  "failed_retries (es @ [(True, False)]) = failed_retries es + 1"
  "failed_retries (es @ [(False, False)]) = failed_retries es"
  by (simp_all add: failed_retries_def)

lemma session_step_counts:
  "retryCount (store (session_step ev w)) + failures (ended w) =
     retryCount (store w) + failures (ended (session_step ev w))"
  by (cases ev) simp_all

lemma session_run_counts:
  "retryCount (store (session_run evs w)) + failures (ended w) =
     retryCount (store w) + failures (ended (session_run evs w))"
proof (induction evs arbitrary: w)
  case Nil
  show ?case by simp
next
  case (Cons ev evs)
  from Cons.IH [of "session_step ev w"] session_step_counts [of ev w]
  show ?case by simp
qed

lemma session_step_grows: "retryCount (store w) \<le> retryCount (store (session_step ev w))"
  by (cases ev) simp_all

lemma session_step_exhausted:
  "3 \<le> retryCount (store w) \<Longrightarrow> retry_attempts (session_step ev w) = retry_attempts w"
  by (cases ev) simp_all

lemma session_run_exhausted:
  "3 \<le> retryCount (store w) \<Longrightarrow> retry_attempts (session_run evs w) = retry_attempts w"
proof (induction evs arbitrary: w)
  case Nil
  show ?case by simp
next
  case (Cons ev evs)
  from Cons.prems session_step_grows [of w ev]
  have "3 \<le> retryCount (store (session_step ev w))" by simp
  then have "retry_attempts (session_run evs (session_step ev w)) =
      retry_attempts (session_step ev w)"
    by (rule Cons.IH)
  with Cons.prems show ?case by (simp add: session_step_exhausted)
qed

lemma without_single [simp]: "without 0 [x] = []"
  by (simp add: without_def)

lemma retry_then_connects:
  assumes "in_flight w = []"
  shows
    "in_flight (session_step (CacheStatsArrive 0)
       (session_step (AttemptConnects 0 g a r) (session_step RetryConnection w))) = []"
    "failed_retries (ended (session_step (CacheStatsArrive 0)
       (session_step (AttemptConnects 0 g a r) (session_step RetryConnection w)))) =
     failed_retries (ended w)"
    "retryCount (store (session_step (CacheStatsArrive 0)
       (session_step (AttemptConnects 0 g a r) (session_step RetryConnection w)))) =
     retryCount (store w)"
proof -
  let ?w1 = "session_step RetryConnection w"
  let ?w2 = "session_step (AttemptConnects 0 g a r) ?w1"
  have w1: "in_flight ?w1 = (if retryCount (store w) < 3 then [True] else [])"
    "ended ?w1 = ended w" "retryCount (store ?w1) = retryCount (store w)"
    using assms by simp_all
  have w2: "in_flight ?w2 = []" "failed_retries (ended ?w2) = failed_retries (ended w)"
    "retryCount (store ?w2) = retryCount (store w)"
    using w1 by (cases "retryCount (store w) < 3"; simp)+
  have step: "in_flight (session_step (CacheStatsArrive 0) w') = in_flight w'"
    "ended (session_step (CacheStatsArrive 0) w') = ended w'"
    "retryCount (store (session_step (CacheStatsArrive 0) w')) = retryCount (store w')" for w'
    :: "('a, 'b, 'c, 'd, 'e, 'f) Session"
    by simp_all
  show "in_flight (session_step (CacheStatsArrive 0) ?w2) = []"
    "failed_retries (ended (session_step (CacheStatsArrive 0) ?w2)) = failed_retries (ended w)"
    "retryCount (store (session_step (CacheStatsArrive 0) ?w2)) = retryCount (store w)"
    using w2 by (simp_all only: step)
qed

lemma retry_then_throws:
  assumes "in_flight w = []"
  shows
    "in_flight (session_step (AttemptThrows 0 e) (session_step RetryConnection w)) = []"
    "failed_retries (ended (session_step (AttemptThrows 0 e) (session_step RetryConnection w))) +
       (3 - retryCount (store (session_step (AttemptThrows 0 e) (session_step RetryConnection w))))
       \<le> failed_retries (ended w) + (3 - retryCount (store w))"
proof -
  let ?w1 = "session_step RetryConnection w"
  have w1: "in_flight ?w1 = (if retryCount (store w) < 3 then [True] else [])"
    "ended ?w1 = ended w" "retryCount (store ?w1) = retryCount (store w)"
    using assms by simp_all
  show "in_flight (session_step (AttemptThrows 0 e) ?w1) = []"
    using w1 by (cases "retryCount (store w) < 3"; simp)
  show "failed_retries (ended (session_step (AttemptThrows 0 e) ?w1)) +
       (3 - retryCount (store (session_step (AttemptThrows 0 e) ?w1)))
       \<le> failed_retries (ended w) + (3 - retryCount (store w))"
    using w1 by (cases "retryCount (store w) < 3"; simp)
qed

lemma one_after_another_bound:
  "in_flight w = [] \<Longrightarrow>
     in_flight (session_run (one_after_another cs) w) = [] \<and>
     failed_retries (ended (session_run (one_after_another cs) w)) +
       (3 - retryCount (store (session_run (one_after_another cs) w)))
       \<le> failed_retries (ended w) + (3 - retryCount (store w))"
proof (induction cs arbitrary: w)
  case Nil
  then show ?case by simp
next
  case (Cons c cs)
  show ?case
  proof (cases c)
    case (Resolves triple)
    obtain g a r where triple: "triple = (g, a, r)" by (cases triple)
    let ?w = "session_step (CacheStatsArrive 0)
                (session_step (AttemptConnects 0 g a r) (session_step RetryConnection w))"
    note step = retry_then_connects [OF Cons.prems, of g a r]
    from Cons.IH [OF step(1)]
    have "in_flight (session_run (one_after_another cs) ?w) = [] \<and>
      failed_retries (ended (session_run (one_after_another cs) ?w)) +
        (3 - retryCount (store (session_run (one_after_another cs) ?w)))
        \<le> failed_retries (ended w) + (3 - retryCount (store w))"
      by (simp only: step(2,3))
    moreover have "session_run (one_after_another (c # cs)) w =
        session_run (one_after_another cs) ?w"
      by (simp only: Resolves triple one_after_another.simps session_run.simps)
    ultimately show ?thesis by (simp only:)
  next
    case (Rejects e)
    let ?w = "session_step (AttemptThrows 0 e) (session_step RetryConnection w)"
    note step = retry_then_throws [OF Cons.prems, of e]
    from Cons.IH [OF step(1)] step(2)
    have "in_flight (session_run (one_after_another cs) ?w) = [] \<and>
      failed_retries (ended (session_run (one_after_another cs) ?w)) +
        (3 - retryCount (store (session_run (one_after_another cs) ?w)))
        \<le> failed_retries (ended w) + (3 - retryCount (store w))"
      by (meson le_trans)
    moreover have "session_run (one_after_another (c # cs)) w =
        session_run (one_after_another cs) ?w"
      by (simp only: Rejects one_after_another.simps session_run.simps)
    ultimately show ?thesis by (simp only:)
  qed
qed

text \<open>
  C10, as stated: connection attempts begun by \<open>retryConnection\<close> never exceed three.
  Four calls, one after another, each of which connects, begin four attempts, because
  \<open>retryCount\<close> counts failures only. And four calls made before the first attempt has
  ended all read \<open>retryCount\<close> as zero and begin four attempts, which may all fail.
\<close>

theorem retry_attempts_counterexample:
  "retry_attempts
     (session_run
        (one_after_another
           [sample_connection, sample_connection, sample_connection, sample_connection])
        (session_of sample_store)) = 4 \<and>
   failed_retries
     (ended
        (session_run
           [RetryConnection, RetryConnection, RetryConnection, RetryConnection,
            AttemptThrows 0 sample_thrown, AttemptThrows 0 sample_thrown,
            AttemptThrows 0 sample_thrown, AttemptThrows 0 sample_thrown]
           (session_of sample_store))) = 4"
  by (simp add: sample_connection_def session_of_def sample_store_def initial_store_def
      initializeCanister_begins_def initializeCanister_connects_def
      initializeCanister_throws_def getCacheStats_arrives_def sample_actor_def without_def
      failed_retries_def)


text \<open>
  C10, amended. A call of \<open>retryConnection\<close> begins a connection attempt exactly when the
  \<open>retryCount\<close> it reads is below three, and otherwise only leaves the maximum-retry
  message (and \<open>isLoading\<close> false). An attempt that throws adds one to \<open>retryCount\<close>,
  one that connects leaves it, so that over any course of events, overlapping or not,
  \<open>retryCount\<close> grows by the number of attempts that failed. Once \<open>retryCount\<close> is
  three or more, no call of \<open>retryConnection\<close> made from then on begins an attempt,
  whatever else happens in between. When the calls of \<open>retryConnection\<close> do not overlap,
  each ending before the next is made, the attempts they begin that fail are at most three
  less the \<open>retryCount\<close> at the start, so at most three. Attempts that connect are not
  bounded, and neither are the failures of calls that overlap.
\<close>

theorem bounded_connection_retries:
  "(retryCount (store w) < 3 \<longrightarrow>
      session_step RetryConnection w =
        w\<lparr>store := initializeCanister_begins (store w), in_flight := in_flight w @ [True],
          retry_attempts := retry_attempts w + 1\<rparr>) \<and>
   (3 \<le> retryCount (store w) \<longrightarrow>
      session_step RetryConnection w =
        w\<lparr>store :=
            (store w)
              \<lparr>error :=
                 Some ''Maximum retry attempts reached. Please check your connection and try again.'',
               isLoading := False\<rparr>\<rparr>) \<and>
   (i < length (in_flight w) \<longrightarrow>
      retryCount (store (session_step (AttemptThrows i e) w)) = retryCount (store w) + 1 \<and>
      retryCount (store (session_step (AttemptConnects i g a r) w)) = retryCount (store w)) \<and>
   retryCount (store (session_run evs w)) + failures (ended w) =
     retryCount (store w) + failures (ended (session_run evs w)) \<and>
   (3 \<le> retryCount (store w) \<longrightarrow> retry_attempts (session_run evs w) = retry_attempts w) \<and>
   (in_flight w = [] \<longrightarrow>
      failed_retries (ended (session_run (one_after_another cs) w))
        \<le> failed_retries (ended w) + (3 - retryCount (store w)))"
proof (intro conjI impI)
  assume "in_flight w = []"
  then show "failed_retries (ended (session_run (one_after_another cs) w))
        \<le> failed_retries (ended w) + (3 - retryCount (store w))"
    using one_after_another_bound [of w cs] by simp
next
  assume "3 \<le> retryCount (store w)"
  then show "retry_attempts (session_run evs w) = retry_attempts w"
    by (rule session_run_exhausted)
next
  show "retryCount (store (session_run evs w)) + failures (ended w) =
     retryCount (store w) + failures (ended (session_run evs w))"
    by (rule session_run_counts)
next
  assume "retryCount (store w) < 3"
  then show "session_step RetryConnection w =
        w\<lparr>store := initializeCanister_begins (store w), in_flight := in_flight w @ [True],
          retry_attempts := retry_attempts w + 1\<rparr>"
    by simp
next
  assume "3 \<le> retryCount (store w)"
  then show "session_step RetryConnection w =
        w\<lparr>store :=
            (store w)
              \<lparr>error :=
                 Some ''Maximum retry attempts reached. Please check your connection and try again.'',
               isLoading := False\<rparr>\<rparr>"
    by simp
next
  assume "i < length (in_flight w)"
  then show "retryCount (store (session_step (AttemptThrows i e) w)) = retryCount (store w) + 1"
    by simp
next
  assume "i < length (in_flight w)"
  then show "retryCount (store (session_step (AttemptConnects i g a r) w)) = retryCount (store w)"
    by simp
qed

theorem bounded_connection_retries_witness:
  "retryCount (store (session_of sample_store)) < 3 \<and>
   in_flight (session_of sample_store) = [] \<and>
   retry_attempts (session_step RetryConnection (session_of sample_store)) = 1 \<and>
   failed_retries
     (ended
        (session_run
           (one_after_another
              [sample_failure, sample_failure, sample_failure, sample_failure, sample_failure])
           (session_of sample_store))) \<le> 3 \<and>
   3 \<le> retryCount (store (session_of (sample_store\<lparr>retryCount := 3\<rparr>))) \<and>
   error (store (session_step RetryConnection (session_of (sample_store\<lparr>retryCount := 3\<rparr>)))) =
     Some ''Maximum retry attempts reached. Please check your connection and try again.'' \<and>
   retry_attempts
     (session_run [RetryConnection, InitializeCanister, RetryConnection]
        (session_of (sample_store\<lparr>retryCount := 3\<rparr>))) = 0 \<and>
   0 < length (in_flight (session_step RetryConnection (session_of sample_store))) \<and>
   retryCount
     (store
        (session_step (AttemptThrows 0 sample_thrown)
           (session_step RetryConnection (session_of sample_store)))) = 1"
  using
    bounded_connection_retries
      [of "session_of sample_store" 0 sample_thrown "()" sample_actor 0 "[]"
          "[sample_failure, sample_failure, sample_failure, sample_failure, sample_failure]"]
    bounded_connection_retries
      [of "session_of (sample_store\<lparr>retryCount := 3\<rparr>)" 0 sample_thrown "()" sample_actor 0
          "[RetryConnection, InitializeCanister, RetryConnection]" "[]"]
    bounded_connection_retries
      [of "session_step RetryConnection (session_of sample_store)" 0 sample_thrown "()"
          sample_actor 0 "[]" "[]"]
  by (simp add: session_of_def sample_store_def initial_store_def failed_retries_def
      initializeCanister_begins_def)

section \<open>Properties of the reserve\<close>

lemma roll_day_funds [simp]:
  "balance (roll_day t r) = balance r" "locked (roll_day t r) = locked r"
  by (simp_all add: roll_day_def)

lemma lock_no_overspend:
  assumes "locked r \<le> balance r" and "lock t amt r = Inr r'"
  shows "locked r' \<le> balance r'"
proof -
  from assms(2) have fits: "amt \<le> balance r - locked r"
    and r': "balance r' = balance r" "locked r' = locked r + amt"
    by (auto simp: lock_def available_def Let_def split: if_splits)
  from assms(1) fits have "locked r + amt \<le> balance r" by (rule le_plus')
  with r' show ?thesis by simp
qed

lemma unlock_no_overspend:
  assumes "locked r \<le> balance r" and "amt \<le> locked r"
  shows "locked (unlock t amt r) \<le> balance (unlock t amt r)"
proof -
  have "locked r - amt \<le> locked r" using assms(2) by unat_arith
  with assms(1) show ?thesis by (simp add: unlock_def Let_def)
qed

lemma commit_no_overspend:
  assumes "locked r \<le> balance r" and "amt \<le> locked r"
  shows "locked (commit t amt r) \<le> balance (commit t amt r)"
proof -
  have "locked r - amt \<le> balance r - amt" using assms by unat_arith
  then show ?thesis by (simp add: commit_def Let_def)
qed

lemma topup_no_overspend:
  assumes "locked r \<le> balance r" and "unat (balance r) + unat amt < 2 ^ 64"
    and "topup is_admin t amt r = Inr r'"
  shows "locked r' \<le> balance r'"
proof -
  from assms(3) have r': "balance r' = balance r + amt" "locked r' = locked r"
    by (auto simp: topup_def Let_def split: if_splits)
  from assms(2) have "balance r \<le> balance r + amt"
    by (simp add: no_olen_add_nat)
  with assms(1) r' show ?thesis by simp
qed

lemma policy_no_overspend:
  assumes "locked r \<le> balance r"
  shows "set_thresholds is_admin t w c r = Inr r' \<Longrightarrow> locked r' \<le> balance r'"
    and "set_daily_limit is_admin t l r = Inr r' \<Longrightarrow> locked r' \<le> balance r'"
    and "pause is_admin t r = Inr r' \<Longrightarrow> locked r' \<le> balance r'"
    and "unpause is_admin t r = Inr r' \<Longrightarrow> locked r' \<le> balance r'"
  using assms
  by (auto simp: set_thresholds_def set_daily_limit_def pause_def unpause_def Let_def
      split: if_splits)

lemma reserve_apply_no_overspend:
  assumes "locked r \<le> balance r" and "within_64_bits op r"
  shows "locked (reserve_apply t op r) \<le> balance (reserve_apply t op r)"
proof (cases op)
  case (Lock amt)
  with assms(1) show ?thesis
    by (auto simp: reserve_apply_def split: sum.splits dest: lock_no_overspend)
next
  case (Unlock amt)
  with assms show ?thesis by (simp add: reserve_apply_def unlock_no_overspend)
next
  case (Commit amt)
  with assms show ?thesis by (simp add: reserve_apply_def commit_no_overspend)
next
  case (Admin is_admin aop)
  show ?thesis
  proof (cases aop)
    case (Topup amt)
    with Admin assms show ?thesis
      by (auto simp: reserve_apply_def split: sum.splits dest: topup_no_overspend)
  next
    case (SetThresholds w c)
    with Admin assms(1) show ?thesis
      by (auto simp: reserve_apply_def split: sum.splits dest: policy_no_overspend(1))
  next
    case (SetDailyLimit l)
    with Admin assms(1) show ?thesis
      by (auto simp: reserve_apply_def split: sum.splits dest: policy_no_overspend(2))
  next
    case Pause
    with Admin assms(1) show ?thesis
      by (auto simp: reserve_apply_def split: sum.splits dest: policy_no_overspend(3))
  next
    case Unpause
    with Admin assms(1) show ?thesis
      by (auto simp: reserve_apply_def split: sum.splits dest: policy_no_overspend(4))
  qed
qed

lemma reserve_history_no_overspend:
  "locked r \<le> balance r \<Longrightarrow> history_within_64_bits h r \<Longrightarrow>
     locked (reserve_history h r) \<le> balance (reserve_history h r)"
proof (induction h arbitrary: r)
  case Nil
  then show ?case by simp
next
  case (Cons step h)
  obtain t op where step: "step = (t, op)" by (cases step)
  from Cons.prems step have "locked (reserve_apply t op r) \<le> balance (reserve_apply t op r)"
    by (simp add: reserve_apply_no_overspend)
  moreover from Cons.prems step have "history_within_64_bits h (reserve_apply t op r)"
    by simp
  ultimately have "locked (reserve_history h (reserve_apply t op r))
      \<le> balance (reserve_history h (reserve_apply t op r))"
    by (rule Cons.IH)
  with step show ?case by simp
qed

lemma available_exact:
  "locked r \<le> balance r \<Longrightarrow> unat (available r) + unat (locked r) = unat (balance r)"
  unfolding available_def by unat_arith





section \<open>Properties of the quote engine\<close>

lemma sweep_fields [simp]:
  "config (sweep t eng) = config eng"
  "stable_settlements (sweep t eng) = stable_settlements eng"
  "admins (sweep t eng) = admins eng"
  "next_id (sweep t eng) = next_id eng"
  by (simp_all add: sweep_def split: prod.splits)

lemma check_expiry_fields [simp]:
  "config (check_expiry t qid eng) = config eng"
  "stable_settlements (check_expiry t qid eng) = stable_settlements eng"
  by (simp_all add: check_expiry_def split: prod.splits)

lemma request_quote_cases:
  assumes "engine_request_quote env user amt addr chain eng0 = (Inr q, eng')"
  obtains g convert r where
    "gas_feed env = Inr g" "price_feed env = Inr convert"
    "q = new_quote (sweep (now env) eng0) (now env) user amt addr chain g convert"
    "lock (now env) (reservation q) (reserve_state (sweep (now env) eng0)) = Inr r"
    "eng' = (sweep (now env) eng0)
        \<lparr>stable_quotes := stable_quotes (sweep (now env) eng0) @ [q],
         reserve_state := r, next_id := next_id (sweep (now env) eng0) + 1\<rparr>"
  using assms
  by (auto simp: engine_request_quote_def Let_def split: if_splits option.splits sum.splits)

lemma request_quote_error:
  assumes "engine_request_quote env user amt addr chain eng0 = (Inl e, eng')"
  shows "eng' = sweep (now env) eng0"
  using assms
  by (auto simp: engine_request_quote_def Let_def split: if_splits option.splits sum.splits)

section \<open>Properties of the settlement engine\<close>

text \<open>
  What a step may do to a stored settlement: it keeps its identifier, its payment proof and
  its quote, and a settlement that has failed stays failed.
\<close>

lemma carried_map:
  assumes "\<And>s. payment_proof (f s) = payment_proof s" and "\<And>s. s_id (f s) = s_id s"
  shows "carried p (eng\<lparr>stable_settlements := map f (stable_settlements eng)\<rparr>) = carried p eng"
  by (simp add: carried_def filter_map o_def assms)

lemma live_map:
  assumes "\<And>s. quote_id (f s) = quote_id s"
    and "\<And>s. s_status (f s) \<noteq> Failed \<Longrightarrow> s_status s \<noteq> Failed"
  shows "length (live_settlements qid (eng\<lparr>stable_settlements := map f (stable_settlements eng)\<rparr>))
           \<le> length (live_settlements qid eng)"
proof -
  have "length (filter (\<lambda>s. quote_id s = qid \<and> s_status s \<noteq> Failed) (map f xs))
          \<le> length (filter (\<lambda>s. quote_id s = qid \<and> s_status s \<noteq> Failed) xs)" for xs
    using assms by (induction xs) auto
  then show ?thesis by (simp add: live_settlements_def)
qed

lemma carried_other_fields [simp]:
  "carried p (eng\<lparr>reserve_state := r\<rparr>) = carried p eng"
  "carried p (eng\<lparr>stable_quotes := qs\<rparr>) = carried p eng"
  "carried p (eng\<lparr>next_id := n\<rparr>) = carried p eng"
  by (simp_all add: carried_def)

lemma live_other_fields [simp]:
  "live_settlements qid (eng\<lparr>reserve_state := r\<rparr>) = live_settlements qid eng"
  "live_settlements qid (eng\<lparr>stable_quotes := qs\<rparr>) = live_settlements qid eng"
  "live_settlements qid (eng\<lparr>next_id := n\<rparr>) = live_settlements qid eng"
  by (simp_all add: live_settlements_def)

lemma carried_sweep [simp]: "carried p (sweep t eng) = carried p eng"
  by (simp add: carried_def)

lemma live_sweep [simp]: "live_settlements qid (sweep t eng) = live_settlements qid eng"
  by (simp add: live_settlements_def)

lemma carried_check_expiry [simp]: "carried p (check_expiry t qid eng) = carried p eng"
  by (simp add: carried_def)

lemma live_check_expiry [simp]:
  "live_settlements qid (check_expiry t qid' eng) = live_settlements qid eng"
  by (simp add: live_settlements_def)

lemma failed_fields [simp]:
  "s_id (failed e s) = s_id s" "payment_proof (failed e s) = payment_proof s"
  "quote_id (failed e s) = quote_id s" "s_status (failed e s) = Failed"
  by (simp_all add: failed_def)

lemma completed_fields [simp]:
  "s_id (completed env receipt s) = s_id s"
  "payment_proof (completed env receipt s) = payment_proof s"
  "quote_id (completed env receipt s) = quote_id s"
  "s_status (completed env receipt s) = Completed"
  by (simp_all add: completed_def)

lemma carried_fail_settlement [simp]: "carried p (fail_settlement t s e eng) = carried p eng"
proof -
  let ?f = "\<lambda>s'. if s_id s' = s_id s \<and> s_status s' = s_status s then failed e s' else s'"
  have "carried p (eng\<lparr>stable_settlements := map ?f (stable_settlements eng)\<rparr>) = carried p eng"
    by (rule carried_map) simp_all
  then show ?thesis by (simp add: fail_settlement_def carried_def)
qed

lemma live_fail_settlement:
  "length (live_settlements qid (fail_settlement t s e eng)) \<le> length (live_settlements qid eng)"
proof -
  let ?f = "\<lambda>s'. if s_id s' = s_id s \<and> s_status s' = s_status s then failed e s' else s'"
  have "length (live_settlements qid (eng\<lparr>stable_settlements := map ?f (stable_settlements eng)\<rparr>))
          \<le> length (live_settlements qid eng)"
    by (rule live_map) (simp_all split: if_splits)
  then show ?thesis by (simp add: fail_settlement_def live_settlements_def)
qed

lemma carried_complete_settlement [simp]:
  "carried p (complete_settlement env s receipt eng) = carried p eng"
proof -
  let ?f = "\<lambda>s'. if s_id s' = s_id s \<and> s_status s' = Executing
                   then completed env receipt s' else s'"
  have "carried p (eng\<lparr>stable_settlements := map ?f (stable_settlements eng)\<rparr>) = carried p eng"
    by (rule carried_map) simp_all
  then show ?thesis by (simp add: complete_settlement_def carried_def)
qed

lemma live_complete_settlement:
  "length (live_settlements qid (complete_settlement env s receipt eng))
     \<le> length (live_settlements qid eng)"
proof -
  let ?f = "\<lambda>s'. if s_id s' = s_id s \<and> s_status s' = Executing
                   then completed env receipt s' else s'"
  have "length (live_settlements qid (eng\<lparr>stable_settlements := map ?f (stable_settlements eng)\<rparr>))
          \<le> length (live_settlements qid eng)"
    by (rule live_map) (simp_all split: if_splits)
  then show ?thesis by (simp add: complete_settlement_def live_settlements_def)
qed

lemma carried_verify_step [simp]: "carried p (snd (verify_step env sid eng)) = carried p eng"
proof -
  let ?f = "\<lambda>s'. if s_id s' = sid \<and> s_status s' = Pending
                   then s'\<lparr>s_status := Executing\<rparr> else s'"
  have "carried p (eng\<lparr>stable_settlements := map ?f (stable_settlements eng)\<rparr>) = carried p eng"
    by (rule carried_map) simp_all
  then show ?thesis
    by (simp add: verify_step_def split: option.splits)
qed

lemma live_verify_step:
  "length (live_settlements qid (snd (verify_step env sid eng))) \<le> length (live_settlements qid eng)"
proof -
  let ?f = "\<lambda>s'. if s_id s' = sid \<and> s_status s' = Pending
                   then s'\<lparr>s_status := Executing\<rparr> else s'"
  have "length (live_settlements qid (eng\<lparr>stable_settlements := map ?f (stable_settlements eng)\<rparr>))
          \<le> length (live_settlements qid eng)"
    by (rule live_map) (simp_all split: if_splits)
  then show ?thesis
    by (simp add: verify_step_def live_fail_settlement split: option.splits)
qed

lemma carried_execute_step [simp]: "carried p (snd (execute_step env sid eng)) = carried p eng"
  by (simp add: execute_step_def split: option.splits sum.splits)

lemma live_execute_step:
  "length (live_settlements qid (snd (execute_step env sid eng))) \<le> length (live_settlements qid eng)"
  by (simp add: execute_step_def live_fail_settlement live_complete_settlement
      split: option.splits sum.splits)



lemma find_heads_filter: "find P xs = Some x \<Longrightarrow> \<exists>ys. filter P xs = x # ys"
  by (induction xs) (auto split: if_splits)

lemma find_None_filter: "find P xs = None \<longleftrightarrow> filter P xs = []"
  by (induction xs) auto

lemma find_carried:
  assumes "find (\<lambda>s. payment_proof s = p) (stable_settlements eng) = Some s"
    and "proofs_unique eng"
  shows "carried p eng = [s_id s]"
proof -
  from assms(1) obtain ys where
    ys: "filter (\<lambda>s. payment_proof s = p) (stable_settlements eng) = s # ys"
    by (auto dest: find_heads_filter)
  from assms(2) have "length (carried p eng) \<le> 1"
    by (simp add: proofs_unique_def del: One_nat_def)
  with ys show ?thesis by (simp add: carried_def)
qed

lemma open_settlement_cases:
  assumes "open_settlement t qid p eng = (res, eng')"
  obtains (same) "eng' = eng" "\<And>s. res \<noteq> Inr (Created s)"
  | (created) q where
      "find (\<lambda>s. payment_proof s = p) (stable_settlements eng) = None"
      "live_settlements qid eng = []"
      "find (\<lambda>q. q_id q = qid) (stable_quotes eng) = Some q"
      "res = Inr (Created (new_settlement eng t q p))"
      "eng' = eng\<lparr>stable_settlements := stable_settlements eng @ [new_settlement eng t q p],
                  next_id := next_id eng + 1\<rparr>"
proof (cases "find (\<lambda>s. payment_proof s = p) (stable_settlements eng)")
  case (Some s)
  with assms have "eng' = eng" "\<And>s. res \<noteq> Inr (Created s)"
    by (auto simp: open_settlement_def split: if_splits)
  then show ?thesis by (rule same)
next
  case None
  note no_proof = this
  show ?thesis
  proof (cases "live_settlements qid eng = []")
    case False
    with no_proof assms have "eng' = eng" "\<And>s. res \<noteq> Inr (Created s)"
      by (auto simp: open_settlement_def)
    then show ?thesis by (rule same)
  next
    case True
    note no_live = this
    show ?thesis
    proof (cases "find (\<lambda>q. q_id q = qid) (stable_quotes eng)")
      case None
      with no_proof no_live assms have "eng' = eng" "\<And>s. res \<noteq> Inr (Created s)"
        by (auto simp: open_settlement_def)
      then show ?thesis by (rule same)
    next
      case (Some q)
      show ?thesis
      proof (cases "q_status q")
        case Active
        with no_proof no_live Some assms have
          "res = Inr (Created (new_settlement eng t q p))"
          "eng' = eng\<lparr>stable_settlements := stable_settlements eng @ [new_settlement eng t q p],
                      next_id := next_id eng + 1\<rparr>"
          by (simp_all add: open_settlement_def Let_def)
        with no_proof no_live Some show ?thesis by (rule created)
      next
        case Expired
        with no_proof no_live Some assms have "eng' = eng" "\<And>s. res \<noteq> Inr (Created s)"
          by (auto simp: open_settlement_def)
        then show ?thesis by (rule same)
      next
        case Settled
        with no_proof no_live Some assms have "eng' = eng" "\<And>s. res \<noteq> Inr (Created s)"
          by (auto simp: open_settlement_def)
        then show ?thesis by (rule same)
      qed
    qed
  qed
qed

lemma new_settlement_fields [simp]:
  "payment_proof (new_settlement eng t q p) = p"
  "quote_id (new_settlement eng t q p) = q_id q"
  "s_status (new_settlement eng t q p) = Pending"
  by (simp_all add: new_settlement_def)

lemma open_settlement_carried:
  assumes "open_settlement t qid p eng = (res, eng')" and "carried p' eng \<noteq> []"
  shows "carried p' eng' = carried p' eng"
  using assms(1)
proof (cases rule: open_settlement_cases)
  case same
  then show ?thesis by simp
next
  case (created q)
  from created(1) have "carried p eng = []"
    by (simp add: find_None_filter carried_def)
  with assms(2) have "p' \<noteq> p" by auto
  with created(5) show ?thesis by (simp add: carried_def)
qed

lemma open_settlement_proofs_unique:
  assumes "open_settlement t qid p eng = (res, eng')" and "proofs_unique eng"
  shows "proofs_unique eng'"
  using assms(1)
proof (cases rule: open_settlement_cases)
  case same
  with assms(2) show ?thesis by simp
next
  case (created q)
  from created(1) have none: "carried p eng = []"
    by (simp add: find_None_filter carried_def)
  show ?thesis
    unfolding proofs_unique_def
  proof
    fix p'
    from assms(2) have "length (carried p' eng) \<le> 1"
      by (simp add: proofs_unique_def del: One_nat_def)
    with none created(5) show "length (carried p' eng') \<le> 1"
      by (cases "p' = p") (simp_all add: carried_def)
  qed
qed

lemma open_settlement_settled_once:
  assumes "open_settlement t qid p eng = (res, eng')" and "settled_once eng"
  shows "settled_once eng'"
  using assms(1)
proof (cases rule: open_settlement_cases)
  case same
  with assms(2) show ?thesis by simp
next
  case (created q)
  from created(3) have q: "q_id q = qid"
    by (auto simp: find_Some_iff)
  show ?thesis
    unfolding settled_once_def
  proof
    fix qid'
    from assms(2) have "length (live_settlements qid' eng) \<le> 1"
      by (simp add: settled_once_def del: One_nat_def)
    with created(2,5) q show "length (live_settlements qid' eng') \<le> 1"
      by (cases "qid' = qid") (simp_all add: live_settlements_def)
  qed
qed

lemma open_settlement_created_carried:
  assumes "open_settlement t qid p eng = (Inr (Created s), eng')"
  shows "carried p eng' = [s_id s]"
  using assms
proof (cases rule: open_settlement_cases)
  case same
  then show ?thesis by blast
next
  case (created q)
  from created(1) have "carried p eng = []"
    by (simp add: find_None_filter carried_def)
  with created(4,5) show ?thesis by (simp add: carried_def)
qed

lemma open_settlement_existing_carried:
  assumes "open_settlement t qid p eng = (Inr (Existing s), eng')" and "proofs_unique eng"
  shows "carried p eng' = [s_id s]"
proof -
  from assms(1) have "find (\<lambda>s. payment_proof s = p) (stable_settlements eng) = Some s" "eng' = eng"
    by (auto simp: open_settlement_def Let_def split: option.splits if_splits QuoteStatus.splits)
  with assms(2) show ?thesis by (simp add: find_carried)
qed



lemma proofs_unique_carried:
  "(\<And>p. carried p eng' = carried p eng) \<Longrightarrow> proofs_unique eng \<Longrightarrow> proofs_unique eng'"
  by (simp add: proofs_unique_def)

lemma settled_once_shrinks:
  "(\<And>qid. length (live_settlements qid eng') \<le> length (live_settlements qid eng)) \<Longrightarrow>
     settled_once eng \<Longrightarrow> settled_once eng'"
  unfolding settled_once_def by (meson le_trans)

lemma carried_drive_settlement [simp]:
  "carried p (snd (drive_settlement env sid eng)) = carried p eng"
proof -
  have "snd (drive_settlement env sid eng) = snd (verify_step env sid eng) \<or>
        snd (drive_settlement env sid eng) =
          snd (execute_step env sid (snd (verify_step env sid eng)))"
    by (auto simp: drive_settlement_def split: prod.splits option.splits sum.splits)
  then show ?thesis by auto
qed

lemma live_drive_settlement:
  "length (live_settlements qid (snd (drive_settlement env sid eng)))
     \<le> length (live_settlements qid eng)"
proof -
  have "snd (drive_settlement env sid eng) = snd (verify_step env sid eng) \<or>
        snd (drive_settlement env sid eng) =
          snd (execute_step env sid (snd (verify_step env sid eng)))"
    by (auto simp: drive_settlement_def split: prod.splits option.splits sum.splits)
  then show ?thesis
    using live_verify_step [of qid env sid eng]
      live_execute_step [of qid env sid "snd (verify_step env sid eng)"]
    by auto
qed

lemma execute_step_id:
  assumes "execute_step env sid eng = (Some (Inr s), eng')"
  shows "s_id s = sid"
proof -
  from assms obtain s0 where
    "find (\<lambda>s. s_id s = sid \<and> s_status s = Executing) (stable_settlements eng) = Some s0"
    by (auto simp: execute_step_def split: option.splits)
  moreover from this have "s_id s0 = sid" by (auto simp: find_Some_iff)
  ultimately show ?thesis
    using assms by (auto simp: execute_step_def split: sum.splits if_splits)
qed

lemma drive_settlement_id:
  assumes "drive_settlement env sid eng = (Inr s, eng')"
  shows "s_id s = sid"
  using assms
  by (auto simp: drive_settlement_def split: prod.splits option.splits sum.splits
      dest: execute_step_id)

lemma settle_quote_cases:
  assumes "engine_settle_quote env qid p eng0 = (res, eng')"
  obtains (stopped) r where
      "open_settlement (now env) qid p (sweep (now env) eng0) = (r, eng')"
      "\<And>s. r \<noteq> Inr (Created s)" "case r of Inl e \<Rightarrow> res = Inl e | Inr (Existing s) \<Rightarrow> res = Inr s
         | Inr (Created s) \<Rightarrow> False"
  | (driven) s eng where
      "open_settlement (now env) qid p (sweep (now env) eng0) = (Inr (Created s), eng)"
      "drive_settlement env (s_id s) eng = (res, eng')"
proof (cases "open_settlement (now env) qid p (sweep (now env) eng0)")
  case (Pair r eng)
  show ?thesis
  proof (cases r)
    case (Inl e)
    with Pair assms have "eng' = eng" "res = Inl e"
      by (simp_all add: engine_settle_quote_def)
    with Pair Inl show ?thesis by (intro stopped [of r]) simp_all
  next
    case (Inr opened)
    show ?thesis
    proof (cases opened)
      case (Existing s)
      with Pair Inr assms have "eng' = eng" "res = Inr s"
        by (simp_all add: engine_settle_quote_def)
      with Pair Inr Existing show ?thesis by (intro stopped [of r]) simp_all
    next
      case (Created s)
      with Pair Inr assms have "drive_settlement env (s_id s) eng = (res, eng')"
        by (simp add: engine_settle_quote_def)
      with Pair Inr Created show ?thesis by (intro driven [of s eng]) simp_all
    qed
  qed
qed

lemma settle_quote_carried:
  assumes "carried p' eng0 \<noteq> []"
  shows "carried p' (snd (engine_settle_quote env qid p eng0)) = carried p' eng0"
proof -
  obtain res eng' where call: "engine_settle_quote env qid p eng0 = (res, eng')"
    by (cases "engine_settle_quote env qid p eng0")
  from call have "carried p' eng' = carried p' eng0"
  proof (cases rule: settle_quote_cases)
    case (stopped r)
    from assms have "carried p' (sweep (now env) eng0) \<noteq> []" by simp
    with stopped(1) have "carried p' eng' = carried p' (sweep (now env) eng0)"
      by (rule open_settlement_carried)
    then show ?thesis by simp
  next
    case (driven s eng)
    from assms have "carried p' (sweep (now env) eng0) \<noteq> []" by simp
    with driven(1) have "carried p' eng = carried p' (sweep (now env) eng0)"
      by (rule open_settlement_carried)
    then have "carried p' eng = carried p' eng0" by simp
    moreover from driven(2) have "carried p' eng' = carried p' eng"
      using carried_drive_settlement [of p' env "s_id s" eng] by simp
    ultimately show ?thesis by simp
  qed
  with call show ?thesis by simp
qed

lemma settle_quote_proofs_unique:
  assumes "proofs_unique eng0"
  shows "proofs_unique (snd (engine_settle_quote env qid p eng0))"
proof -
  obtain res eng' where call: "engine_settle_quote env qid p eng0 = (res, eng')"
    by (cases "engine_settle_quote env qid p eng0")
  from assms have swept: "proofs_unique (sweep (now env) eng0)"
    by (simp add: proofs_unique_def)
  from call have "proofs_unique eng'"
  proof (cases rule: settle_quote_cases)
    case (stopped r)
    from stopped(1) swept show ?thesis by (rule open_settlement_proofs_unique)
  next
    case (driven s eng)
    from driven(1) swept have opened: "proofs_unique eng" by (rule open_settlement_proofs_unique)
    from driven(2) have "\<And>p. carried p eng' = carried p eng"
      using carried_drive_settlement [of _ env "s_id s" eng] by simp
    from this opened show ?thesis by (rule proofs_unique_carried)
  qed
  with call show ?thesis by simp
qed

lemma settle_quote_settled_once:
  assumes "settled_once eng0"
  shows "settled_once (snd (engine_settle_quote env qid p eng0))"
proof -
  obtain res eng' where call: "engine_settle_quote env qid p eng0 = (res, eng')"
    by (cases "engine_settle_quote env qid p eng0")
  from assms have swept: "settled_once (sweep (now env) eng0)"
    by (simp add: settled_once_def)
  from call have "settled_once eng'"
  proof (cases rule: settle_quote_cases)
    case (stopped r)
    from stopped(1) swept show ?thesis by (rule open_settlement_settled_once)
  next
    case (driven s eng)
    from driven(1) swept have opened: "settled_once eng" by (rule open_settlement_settled_once)
    from driven(2) have
      "\<And>qid. length (live_settlements qid eng') \<le> length (live_settlements qid eng)"
      using live_drive_settlement [of _ env "s_id s" eng] by simp
    from this opened show ?thesis by (rule settled_once_shrinks)
  qed
  with call show ?thesis by simp
qed

lemma settle_quote_reply_carried:
  assumes "engine_settle_quote env qid p eng0 = (Inr s, eng')" and "proofs_unique eng0"
  shows "carried p eng' = [s_id s]"
  using assms(1)
proof (cases rule: settle_quote_cases)
  case (stopped r)
  from assms(2) have swept: "proofs_unique (sweep (now env) eng0)"
    by (simp add: proofs_unique_def)
  from stopped(2,3) have "r = Inr (Existing s)"
    by (cases r) (auto split: Opened.splits)
  with stopped(1) have
    "open_settlement (now env) qid p (sweep (now env) eng0) = (Inr (Existing s), eng')"
    by simp
  from this swept show ?thesis by (rule open_settlement_existing_carried)
next
  case (driven s0 eng)
  from driven(1) have "carried p eng = [s_id s0]" by (rule open_settlement_created_carried)
  moreover from driven(2) have "carried p eng' = carried p eng"
    using carried_drive_settlement [of p env "s_id s0" eng] by simp
  moreover from driven(2) have "s_id s = s_id s0" by (rule drive_settlement_id)
  ultimately show ?thesis by simp
qed



lemma request_quote_settlements [simp]:
  "stable_settlements (snd (engine_request_quote env user amt addr chain eng0)) =
   stable_settlements eng0"
proof (cases "engine_request_quote env user amt addr chain eng0")
  case (Pair res eng')
  show ?thesis
  proof (cases res)
    case (Inl e)
    with Pair have "eng' = sweep (now env) eng0" by (auto dest: request_quote_error)
    with Pair show ?thesis by simp
  next
    case (Inr q)
    with Pair show ?thesis by (auto elim!: request_quote_cases)
  qed
qed

lemma carried_request_quote [simp]:
  "carried p (snd (engine_request_quote env user amt addr chain eng0)) = carried p eng0"
  by (simp add: carried_def)

lemma live_request_quote [simp]:
  "live_settlements qid (snd (engine_request_quote env user amt addr chain eng0)) =
   live_settlements qid eng0"
  by (simp add: live_settlements_def)

lemma bridge_assets_cases:
  assumes "engine_bridge_assets env user amt addr chain eng0 = (res, eng')"
  obtains (existing) s where
      "find (\<lambda>s. payment_proof s = linked_payment env) (stable_settlements eng0) = Some s"
      "res = Inr s" "eng' = sweep (now env) eng0"
  | (refused) e where
      "engine_request_quote env user amt addr chain (sweep (now env) eng0) = (Inl e, eng')"
      "res = Inl e"
  | (settled) q eng where
      "engine_request_quote env user amt addr chain (sweep (now env) eng0) = (Inr q, eng)"
      "engine_settle_quote env (q_id q) (linked_payment env) eng = (res, eng')"
proof (cases "find (\<lambda>s. payment_proof s = linked_payment env) (stable_settlements eng0)")
  case (Some s)
  with assms have "res = Inr s" "eng' = sweep (now env) eng0"
    by (simp_all add: engine_bridge_assets_def Let_def)
  with Some show ?thesis by (rule existing)
next
  case None
  show ?thesis
  proof (cases "engine_request_quote env user amt addr chain (sweep (now env) eng0)")
    case (Pair r eng)
    show ?thesis
    proof (cases r)
      case (Inl e)
      with None Pair assms have "res = Inl e" "eng' = eng"
        by (simp_all add: engine_bridge_assets_def Let_def)
      with Pair Inl show ?thesis by (intro refused [of e]) simp_all
    next
      case (Inr q)
      with None Pair assms have "engine_settle_quote env (q_id q) (linked_payment env) eng = (res, eng')"
        by (simp add: engine_bridge_assets_def Let_def)
      with Pair Inr show ?thesis by (intro settled [of q eng]) simp_all
    qed
  qed
qed

lemma bridge_assets_carried:
  assumes "carried p' eng0 \<noteq> []"
  shows "carried p' (snd (engine_bridge_assets env user amt addr chain eng0)) = carried p' eng0"
proof -
  obtain res eng' where call: "engine_bridge_assets env user amt addr chain eng0 = (res, eng')"
    by (cases "engine_bridge_assets env user amt addr chain eng0")
  from call have "carried p' eng' = carried p' eng0"
  proof (cases rule: bridge_assets_cases)
    case (existing s)
    then show ?thesis by simp
  next
    case (refused e)
    then show ?thesis
      using carried_request_quote [of p' env user amt addr chain "sweep (now env) eng0"] by simp
  next
    case (settled q eng)
    from settled(1) have quoted: "carried p' eng = carried p' eng0"
      using carried_request_quote [of p' env user amt addr chain "sweep (now env) eng0"] by simp
    with assms have "carried p' eng \<noteq> []" by simp
    then have "carried p' (snd (engine_settle_quote env (q_id q) (linked_payment env) eng)) =
        carried p' eng"
      by (rule settle_quote_carried)
    with settled(2) quoted show ?thesis by simp
  qed
  with call show ?thesis by simp
qed

lemma bridge_assets_proofs_unique:
  assumes "proofs_unique eng0"
  shows "proofs_unique (snd (engine_bridge_assets env user amt addr chain eng0))"
proof -
  obtain res eng' where call: "engine_bridge_assets env user amt addr chain eng0 = (res, eng')"
    by (cases "engine_bridge_assets env user amt addr chain eng0")
  from call have "proofs_unique eng'"
  proof (cases rule: bridge_assets_cases)
    case (existing s)
    with assms show ?thesis by (simp add: proofs_unique_def)
  next
    case (refused e)
    with assms show ?thesis
      using carried_request_quote [of _ env user amt addr chain "sweep (now env) eng0"]
      by (simp add: proofs_unique_def)
  next
    case (settled q eng)
    from settled(1) assms have "proofs_unique eng"
      using carried_request_quote [of _ env user amt addr chain "sweep (now env) eng0"]
      by (simp add: proofs_unique_def)
    then have "proofs_unique (snd (engine_settle_quote env (q_id q) (linked_payment env) eng))"
      by (rule settle_quote_proofs_unique)
    with settled(2) show ?thesis by simp
  qed
  with call show ?thesis by simp
qed

lemma bridge_assets_settled_once:
  assumes "settled_once eng0"
  shows "settled_once (snd (engine_bridge_assets env user amt addr chain eng0))"
proof -
  obtain res eng' where call: "engine_bridge_assets env user amt addr chain eng0 = (res, eng')"
    by (cases "engine_bridge_assets env user amt addr chain eng0")
  from call have "settled_once eng'"
  proof (cases rule: bridge_assets_cases)
    case (existing s)
    with assms show ?thesis by (simp add: settled_once_def)
  next
    case (refused e)
    with assms show ?thesis
      using live_request_quote [of _ env user amt addr chain "sweep (now env) eng0"]
      by (simp add: settled_once_def)
  next
    case (settled q eng)
    from settled(1) assms have "settled_once eng"
      using live_request_quote [of _ env user amt addr chain "sweep (now env) eng0"]
      by (simp add: settled_once_def)
    then have "settled_once (snd (engine_settle_quote env (q_id q) (linked_payment env) eng))"
      by (rule settle_quote_settled_once)
    with settled(2) show ?thesis by simp
  qed
  with call show ?thesis by simp
qed

lemma bridge_assets_reply_carried:
  assumes "engine_bridge_assets env user amt addr chain eng0 = (Inr s, eng')"
    and "proofs_unique eng0"
  shows "carried (linked_payment env) eng' = [s_id s]"
  using assms(1)
proof (cases rule: bridge_assets_cases)
  case (existing s0)
  with assms(2) show ?thesis by (simp add: find_carried)
next
  case (refused e)
  then show ?thesis by simp
next
  case (settled q eng)
  from settled(1) assms(2) have "proofs_unique eng"
    using carried_request_quote [of _ env user amt addr chain "sweep (now env) eng0"]
    by (simp add: proofs_unique_def)
  with settled(2) show ?thesis by (rule settle_quote_reply_carried)
qed

lemma reply_Ok [simp]: "reply r = Ok v \<longleftrightarrow> r = Inr v"
  by (cases r) (simp_all add: reply_def)

lemma api_engine [simp]:
  "snd (api_request_quote env caller amt addr chain eng) =
     snd (engine_request_quote env caller amt addr chain eng)"
  "snd (api_settle_quote env caller qid proof_id eng) =
     snd (engine_settle_quote env qid proof_id eng)"
  "snd (api_bridge_assets env caller amt addr chain eng) =
     snd (engine_bridge_assets env caller amt addr chain eng)"
  "fst (api_request_quote env caller amt addr chain eng) =
     reply (fst (engine_request_quote env caller amt addr chain eng))"
  "fst (api_settle_quote env caller qid proof_id eng) =
     reply (fst (engine_settle_quote env qid proof_id eng))"
  "fst (api_bridge_assets env caller amt addr chain eng) =
     reply (fst (engine_bridge_assets env caller amt addr chain eng))"
  by (simp_all add: api_request_quote_def api_settle_quote_def api_bridge_assets_def
      split: prod.splits)

lemma engine_call_carried:
  assumes "carried p eng \<noteq> []"
  shows "carried p (engine_call env call eng) = carried p eng"
proof (cases call)
  case (RequestQuote caller amt addr chain)
  then show ?thesis by simp
next
  case (SettleQuote caller qid proof_id)
  then show ?thesis
    using settle_quote_carried [OF assms, of env qid proof_id] by simp
next
  case (BridgeAssets caller amt addr chain)
  then show ?thesis
    using bridge_assets_carried [OF assms, of env caller amt addr chain] by simp
next
  case (CheckExpiry qid)
  then show ?thesis by simp
next
  case (OpenSettlement qid proof_id)
  obtain res eng' where opened:
    "open_settlement (now env) qid proof_id (sweep (now env) eng) = (res, eng')"
    by (cases "open_settlement (now env) qid proof_id (sweep (now env) eng)")
  from assms have "carried p (sweep (now env) eng) \<noteq> []" by simp
  with opened have "carried p eng' = carried p (sweep (now env) eng)"
    by (rule open_settlement_carried)
  with OpenSettlement opened show ?thesis by simp
next
  case (VerifyPayment sid)
  then show ?thesis by simp
next
  case (Execute sid)
  then show ?thesis by simp
next
  case (AdminCall caller op)
  then show ?thesis by (simp split: sum.splits)
qed

lemma engine_call_proofs_unique:
  assumes "proofs_unique eng"
  shows "proofs_unique (engine_call env call eng)"
proof (cases call)
  case (RequestQuote caller amt addr chain)
  with assms show ?thesis
    by (simp add: proofs_unique_def)
next
  case (SettleQuote caller qid proof_id)
  then show ?thesis
    using settle_quote_proofs_unique [OF assms, of env qid proof_id] by simp
next
  case (BridgeAssets caller amt addr chain)
  then show ?thesis
    using bridge_assets_proofs_unique [OF assms, of env caller amt addr chain] by simp
next
  case (CheckExpiry qid)
  with assms show ?thesis by (simp add: proofs_unique_def)
next
  case (OpenSettlement qid proof_id)
  obtain res eng' where opened:
    "open_settlement (now env) qid proof_id (sweep (now env) eng) = (res, eng')"
    by (cases "open_settlement (now env) qid proof_id (sweep (now env) eng)")
  from assms have "proofs_unique (sweep (now env) eng)" by (simp add: proofs_unique_def)
  with opened have "proofs_unique eng'" by (rule open_settlement_proofs_unique)
  with OpenSettlement opened show ?thesis by simp
next
  case (VerifyPayment sid)
  with assms show ?thesis by (simp add: proofs_unique_def)
next
  case (Execute sid)
  with assms show ?thesis by (simp add: proofs_unique_def)
next
  case (AdminCall caller op)
  with assms show ?thesis by (simp add: proofs_unique_def split: sum.splits)
qed

lemma engine_call_settled_once:
  assumes "settled_once eng"
  shows "settled_once (engine_call env call eng)"
proof (cases call)
  case (RequestQuote caller amt addr chain)
  with assms show ?thesis
    by (simp add: settled_once_def)
next
  case (SettleQuote caller qid proof_id)
  then show ?thesis
    using settle_quote_settled_once [OF assms, of env qid proof_id] by simp
next
  case (BridgeAssets caller amt addr chain)
  then show ?thesis
    using bridge_assets_settled_once [OF assms, of env caller amt addr chain] by simp
next
  case (CheckExpiry qid)
  with assms show ?thesis by (simp add: settled_once_def)
next
  case (OpenSettlement qid proof_id)
  obtain res eng' where opened:
    "open_settlement (now env) qid proof_id (sweep (now env) eng) = (res, eng')"
    by (cases "open_settlement (now env) qid proof_id (sweep (now env) eng)")
  from assms have "settled_once (sweep (now env) eng)" by (simp add: settled_once_def)
  with opened have "settled_once eng'" by (rule open_settlement_settled_once)
  with OpenSettlement opened show ?thesis by simp
next
  case (VerifyPayment sid)
  have "\<And>qid. length (live_settlements qid (snd (verify_step env sid eng)))
          \<le> length (live_settlements qid eng)"
    by (rule live_verify_step)
  from this assms have "settled_once (snd (verify_step env sid eng))"
    by (rule settled_once_shrinks)
  with VerifyPayment show ?thesis by simp
next
  case (Execute sid)
  have "\<And>qid. length (live_settlements qid (snd (execute_step env sid eng)))
          \<le> length (live_settlements qid eng)"
    by (rule live_execute_step)
  from this assms have "settled_once (snd (execute_step env sid eng))"
    by (rule settled_once_shrinks)
  with Execute show ?thesis by simp
next
  case (AdminCall caller op)
  with assms show ?thesis by (simp add: settled_once_def split: sum.splits)
qed

lemma engine_history_carried:
  "carried p eng \<noteq> [] \<Longrightarrow> carried p (engine_history h eng) = carried p eng"
proof (induction h arbitrary: eng)
  case Nil
  then show ?case by simp
next
  case (Cons step h)
  obtain env call where step: "step = (env, call)" by (cases step)
  from Cons.prems have kept: "carried p (engine_call env call eng) = carried p eng"
    by (rule engine_call_carried)
  with Cons.prems have "carried p (engine_call env call eng) \<noteq> []" by simp
  then have "carried p (engine_history h (engine_call env call eng)) =
      carried p (engine_call env call eng)"
    by (rule Cons.IH)
  with kept step show ?case by simp
qed

lemma engine_history_invariants:
  "proofs_unique eng \<Longrightarrow> settled_once eng \<Longrightarrow>
     proofs_unique (engine_history h eng) \<and> settled_once (engine_history h eng)"
proof (induction h arbitrary: eng)
  case Nil
  then show ?case by simp
next
  case (Cons step h)
  obtain env call where step: "step = (env, call)" by (cases step)
  from Cons.prems have "proofs_unique (engine_call env call eng)"
    "settled_once (engine_call env call eng)"
    by (simp_all add: engine_call_proofs_unique engine_call_settled_once)
  then have "proofs_unique (engine_history h (engine_call env call eng)) \<and>
      settled_once (engine_history h (engine_call env call eng))"
    by (rule Cons.IH)
  with step show ?case by simp
qed

lemma init_engine_invariants:
  "proofs_unique (init_engine cfg r admin)" "settled_once (init_engine cfg r admin)"
  by (simp_all add: proofs_unique_def settled_once_def carried_def live_settlements_def
      init_engine_def)

section \<open>Properties of the engine's replies\<close>

lemma settling_carried:
  assumes "settling env call eng = Some (p, Ok s)" and "proofs_unique eng"
  shows "carried p (engine_call env call eng) = [s_id s]"
proof (cases call)
  case (SettleQuote caller qid proof_id)
  with assms(1) have "p = proof_id" "fst (engine_settle_quote env qid p eng) = Inr s"
    by auto
  then have "engine_settle_quote env qid p eng = (Inr s, snd (engine_settle_quote env qid p eng))"
    by (metis prod.collapse)
  from this assms(2) have "carried p (snd (engine_settle_quote env qid p eng)) = [s_id s]"
    by (rule settle_quote_reply_carried)
  with SettleQuote \<open>p = proof_id\<close> show ?thesis by simp
next
  case (BridgeAssets caller amt addr chain)
  with assms(1) have "p = linked_payment env"
    "fst (engine_bridge_assets env caller amt addr chain eng) = Inr s"
    by auto
  then have "engine_bridge_assets env caller amt addr chain eng =
      (Inr s, snd (engine_bridge_assets env caller amt addr chain eng))"
    by (metis prod.collapse)
  from this assms(2) have
    "carried (linked_payment env) (snd (engine_bridge_assets env caller amt addr chain eng)) =
       [s_id s]"
    by (rule bridge_assets_reply_carried)
  with BridgeAssets \<open>p = linked_payment env\<close> show ?thesis by simp
qed (use assms(1) in simp_all)

lemma replies_carried:
  "proofs_unique eng \<Longrightarrow> (p, Ok s) \<in> set (settlement_replies h eng) \<Longrightarrow>
     carried p (engine_history h eng) = [s_id s]"
proof (induction h arbitrary: eng)
  case Nil
  then show ?case by simp
next
  case (Cons step h)
  obtain env call where step: "step = (env, call)" by (cases step)
  from Cons.prems(1) have unique: "proofs_unique (engine_call env call eng)"
    by (rule engine_call_proofs_unique)
  from Cons.prems(2) step consider
    (head) "settling env call eng = Some (p, Ok s)"
    | (tail) "(p, Ok s) \<in> set (settlement_replies h (engine_call env call eng))"
    by (auto split: option.splits)
  then show ?case
  proof cases
    case head
    from this Cons.prems(1) have now: "carried p (engine_call env call eng) = [s_id s]"
      by (rule settling_carried)
    then have "carried p (engine_call env call eng) \<noteq> []" by simp
    then have "carried p (engine_history h (engine_call env call eng)) =
        carried p (engine_call env call eng)"
      by (rule engine_history_carried)
    with now step show ?thesis by simp
  next
    case tail
    with unique have "carried p (engine_history h (engine_call env call eng)) = [s_id s]"
      by (rule Cons.IH)
    with step show ?thesis by simp
  qed
qed

lemma completed_with_carried: "length (completed_with p eng) \<le> length (carried p eng)"
proof -
  have "completed_with p eng =
      filter (\<lambda>s. s_status s = Completed)
        (filter (\<lambda>s. payment_proof s = p) (stable_settlements eng))"
    by (simp add: completed_with_def conj_commute)
  moreover have "length (filter (\<lambda>s. s_status s = Completed)
        (filter (\<lambda>s. payment_proof s = p) (stable_settlements eng)))
      \<le> length (filter (\<lambda>s. payment_proof s = p) (stable_settlements eng))"
    by (rule length_filter_le)
  ultimately show ?thesis by (simp only: carried_def length_map)
qed

lemma existing_settle_quote:
  assumes "find (\<lambda>s. payment_proof s = p) (stable_settlements eng) = Some s"
  shows "fst (api_settle_quote env caller (quote_id s) p eng) = Ok s"
    and "stable_settlements (snd (api_settle_quote env caller qid p eng)) = stable_settlements eng"
  using assms by (simp_all add: engine_settle_quote_def open_settlement_def reply_def)

lemma existing_bridge_assets:
  assumes "find (\<lambda>s. payment_proof s = linked_payment env) (stable_settlements eng) = Some s"
  shows "fst (api_bridge_assets env caller amt addr chain eng) = Ok s"
    and "stable_settlements (snd (api_bridge_assets env caller amt addr chain eng)) =
      stable_settlements eng"
  using assms by (simp_all add: engine_bridge_assets_def Let_def reply_def)

lemma settled_settle_quote:
  assumes "live_settlements qid eng \<noteq> []"
  shows "stable_settlements (snd (api_settle_quote env caller qid p eng)) = stable_settlements eng"
    and "carried p eng = [] \<Longrightarrow>
      fst (api_settle_quote env caller qid p eng) = Err ''QuoteError.AlreadySettled''"
proof -
  show "stable_settlements (snd (api_settle_quote env caller qid p eng)) = stable_settlements eng"
    using assms
    by (cases "find (\<lambda>s. payment_proof s = p) (stable_settlements eng)")
      (simp_all add: engine_settle_quote_def open_settlement_def)
next
  assume "carried p eng = []"
  then have "find (\<lambda>s. payment_proof s = p) (stable_settlements eng) = None"
    by (simp add: carried_def find_None_filter)
  with assms show
    "fst (api_settle_quote env caller qid p eng) = Err ''QuoteError.AlreadySettled''"
    by (simp add: engine_settle_quote_def open_settlement_def reply_def)
qed

lemma carried_settle_quote:
  assumes "find (\<lambda>s. payment_proof s = p) (stable_settlements eng) = Some s"
  shows "fst (api_settle_quote env caller qid p eng) =
      (if quote_id s = qid then Ok s else Err ''PaymentError.AlreadyUsed'')"
  using assms by (simp add: engine_settle_quote_def open_settlement_def reply_def)

lemma request_quote_window:
  assumes "fst (api_request_quote env caller amt addr chain eng) = Ok q"
  shows "q_created_at q = now env"
    and "expires_at q = q_created_at q + quote_validity_minutes (config eng) * 60"
    and "q \<in> set (stable_quotes (snd (api_request_quote env caller amt addr chain eng)))"
proof -
  from assms have "fst (engine_request_quote env caller amt addr chain eng) = Inr q" by simp
  then have call: "engine_request_quote env caller amt addr chain eng =
      (Inr q, snd (engine_request_quote env caller amt addr chain eng))"
    by (metis prod.collapse)
  then obtain g convert r where
    q: "q = new_quote (sweep (now env) eng) (now env) caller amt addr chain g convert" and
    eng': "snd (engine_request_quote env caller amt addr chain eng) =
      (sweep (now env) eng)
        \<lparr>stable_quotes := stable_quotes (sweep (now env) eng) @ [q],
         reserve_state := r, next_id := next_id (sweep (now env) eng) + 1\<rparr>"
    by (rule request_quote_cases)
  from q show "q_created_at q = now env"
    and "expires_at q = q_created_at q + quote_validity_minutes (config eng) * 60"
    by (simp_all add: new_quote_def Let_def)
  from eng' show
    "q \<in> set (stable_quotes (snd (api_request_quote env caller amt addr chain eng)))"
    by simp
qed

lemma window_exact:
  fixes t minutes :: u64
  assumes "unat t + unat minutes * 60 < 2 ^ 64"
  shows "unat (t + minutes * 60) = unat t + unat minutes * 60"
proof -
  from assms have "unat minutes * unat (60 :: u64) < 2 ^ LENGTH(64)" by simp
  then have "unat (minutes * 60) = unat minutes * unat (60 :: u64)"
    by (simp only: unat_mult_lem)
  then have m: "unat (minutes * 60) = unat minutes * 60" by simp
  with assms have "unat t + unat (minutes * 60) < 2 ^ LENGTH(64)" by simp
  then have "unat (t + minutes * 60) = unat t + unat (minutes * 60)"
    by (simp only: unat_add_lem)
  with m show ?thesis by simp
qed

lemma reply_shape: "(\<exists>v. reply r = Ok v) \<or> (\<exists>e. reply r = Err (error_text e))"
  by (cases r) (auto simp: reply_def)

lemma sample_replies:
  "settlement_replies sample_calls sample_engine =
     [(''P1'', Ok sample_settlement), (''P1'', Ok sample_settlement),
      (''P1'', Ok sample_settlement)]"
  by code_simp

lemma sample_request:
  "fst (api_request_quote sample_env ''alice'' 1000000 sample_address ''Base Sepolia''
     sample_engine) = Ok sample_quote"
  by code_simp

lemma canister_declares_request_quote:
  "map_of canister_idlFactory ''request_quote'' =
     Some (IDL_Func [IDL_Nat64, IDL_Text, IDL_Text]
       [IDL_Variant [(''Ok'', canister_Quote), (''Err'', IDL_Text)]] [])"
  by code_simp

lemma canister_declares_bridge_assets:
  "map_of canister_idlFactory ''bridge_assets'' =
     Some (IDL_Func [IDL_Nat64, IDL_Text, IDL_Text]
       [IDL_Variant [(''Ok'', canister_Settlement), (''Err'', IDL_Text)]] [])"
  by code_simp

lemma canister_declares_settle_quote:
  "map_of canister_idlFactory ''settle_quote'' =
     Some (IDL_Func [IDL_Text, IDL_Text]
       [IDL_Variant [(''Ok'', canister_Settlement), (''Err'', IDL_Text)]] [])"
  by code_simp

lemma canister_declares_get_settlement_by_quote:
  "map_of canister_idlFactory ''get_settlement_by_quote'' =
     Some (IDL_Func [IDL_Text] [IDL_Opt canister_Settlement] [])"
  by code_simp

lemma sample_settled:
  "find (\<lambda>s. payment_proof s = ''P1'')
     (stable_settlements (engine_history sample_calls sample_engine)) = Some sample_settlement"
  "live_settlements ''Q0'' (engine_history sample_calls sample_engine) = [sample_settlement]"
  "carried ''P2'' (engine_history sample_calls sample_engine) = []"
  "linked_payment sample_env = ''P1''"
  "quote_id sample_settlement = ''Q0''"
  by code_simp+

lemma sample_window:
  "quote_validity_minutes (config sample_engine) = 15"
  "now sample_env = 1000"
  by code_simp+







text \<open>
  C6: every quote that \<open>request_quote\<close> creates is created at the time of the call, is
  stored, and expires \<open>quote_validity_minutes\<close> of the configuration, in seconds, after its
  creation: the sum is the 64-bit sum of the two, and is their exact sum whenever that fits
  in 64 bits. The default configuration has a validity of 15 minutes, with which a quote
  expires 900 seconds after its creation.
\<close>

theorem quote_expiry_window:
  "(fst (api_request_quote env caller amt addr chain eng) = Ok q \<longrightarrow>
      q_created_at q = now env \<and>
      expires_at q = q_created_at q + quote_validity_minutes (config eng) * 60 \<and>
      q \<in> set (stable_quotes (snd (api_request_quote env caller amt addr chain eng)))) \<and>
   (fst (api_request_quote env caller amt addr chain eng) = Ok q \<longrightarrow>
      unat (now env) + unat (quote_validity_minutes (config eng)) * 60 < 2 ^ 64 \<longrightarrow>
      unat (expires_at q) =
        unat (q_created_at q) + unat (quote_validity_minutes (config eng)) * 60) \<and>
   quote_validity_minutes (default_config lowest highest gas_cap chain_names) = 15 \<and>
   (fst (api_request_quote env caller amt addr chain eng) = Ok q \<longrightarrow>
      quote_validity_minutes (config eng) = 15 \<longrightarrow> expires_at q = q_created_at q + 900)"
proof (intro conjI impI)
  show "quote_validity_minutes (default_config lowest highest gas_cap chain_names) = 15"
    by (simp add: default_config_def)
next
  assume "fst (api_request_quote env caller amt addr chain eng) = Ok q"
  then show "q_created_at q = now env"
    and "expires_at q = q_created_at q + quote_validity_minutes (config eng) * 60"
    and "q \<in> set (stable_quotes (snd (api_request_quote env caller amt addr chain eng)))"
    by (rule request_quote_window)+
next
  assume created: "fst (api_request_quote env caller amt addr chain eng) = Ok q"
    and fits: "unat (now env) + unat (quote_validity_minutes (config eng)) * 60 < 2 ^ 64"
  from created have "q_created_at q = now env"
    and "expires_at q = q_created_at q + quote_validity_minutes (config eng) * 60"
    by (rule request_quote_window)+
  with window_exact [OF fits]
  show "unat (expires_at q) =
      unat (q_created_at q) + unat (quote_validity_minutes (config eng)) * 60"
    by simp
next
  assume "fst (api_request_quote env caller amt addr chain eng) = Ok q"
  then have "expires_at q = q_created_at q + quote_validity_minutes (config eng) * 60"
    by (rule request_quote_window)
  moreover assume "quote_validity_minutes (config eng) = 15"
  ultimately show "expires_at q = q_created_at q + 900" by simp
qed

theorem quote_expiry_window_witness:
  "fst (api_request_quote sample_env ''alice'' 1000000 sample_address ''Base Sepolia''
     sample_engine) = Ok sample_quote \<and>
   quote_validity_minutes (config sample_engine) = 15 \<and>
   unat (now sample_env) + unat (quote_validity_minutes (config sample_engine)) * 60 < 2 ^ 64 \<and>
   q_created_at sample_quote = 1000 \<and>
   expires_at sample_quote = q_created_at sample_quote + 900 \<and>
   unat (expires_at sample_quote) = 1900"
  using quote_expiry_window
    [of sample_env "''alice''" 1000000 sample_address "''Base Sepolia''" sample_engine
        sample_quote]
    sample_request sample_window
  by simp


end
